theory Spec2Isabelle
  imports Main "HOL-Library.Word" "HOL-Library.Char_ord" "HOL-Library.List_Lexorder"
begin

section \<open>Data model (MainWindow.h)\<close>

text \<open>
  Window handles are opaque numbers; a call that may return \<open>nullptr\<close> returns an
  \<open>HWND option\<close>. A \<open>DWORD\<close> is a 32-bit word. A \<open>std::wstring\<close> is a list of
  characters; \<open>char\<close> stands for the code unit \<open>wchar_t\<close>.
\<close>

type_synonym HWND = nat
type_synonym DWORD = "32 word"
type_synonym wstring = string

record RECT =
  rc_left :: int
  rc_top :: int
  rc_right :: int
  rc_bottom :: int

record TrackedWindow =
  processId :: DWORD
  hwnd :: HWND
  rect :: RECT
  className :: wstring
  windowTitle :: wstring
  failCount :: int
  launchTime :: "64 word"

text \<open>
  \<open>std::map<std::wstring, TrackedWindow>\<close>: an association list kept in the order of its
  keys (the order in which a range-for visits it). \<open>map_of\<close> is \<open>find\<close>;
  \<open>map_assign\<close> is \<open>m[key] = value\<close> (and the assignment through an iterator that
  \<open>find\<close> returned).
\<close>

type_synonym fileWindowMap = "(wstring \<times> TrackedWindow) list"

fun map_assign :: "wstring \<Rightarrow> TrackedWindow \<Rightarrow> fileWindowMap \<Rightarrow> fileWindowMap" where
  "map_assign k v [] = [(k, v)]"
| "map_assign k v ((k', v') # r) =
     (if k = k' then (k, v) # r
      else if k < k' then (k, v) # (k', v') # r
      else (k', v') # map_assign k v r)"

section \<open>Characters and strings (C library, std::wstring)\<close>

definition backslash :: char where "backslash = CHR 0x5C"
definition tab :: char where "tab = CHR 0x09"
definition newline :: char where "newline = CHR 0x0A"

text \<open>\<open>towlower\<close> in the "C" locale (the program never calls \<open>setlocale\<close>): only
  \<open>A\<close> to \<open>Z\<close> have a lower-case form, 32 code points higher.\<close>

definition towlower :: "char \<Rightarrow> char" where
  "towlower c =
     (if CHR ''A'' \<le> c \<and> c \<le> CHR ''Z'' then char_of (of_char c + (32::nat)) else c)"

text \<open>\<open>s.find(pat)\<close>: the least position at which \<open>pat\<close> occurs in \<open>s\<close>,
  \<open>None\<close> for \<open>npos\<close>.\<close>

fun wfind :: "wstring \<Rightarrow> wstring \<Rightarrow> nat option" where
  "wfind [] pat = (if pat = [] then Some 0 else None)"
| "wfind (c # cs) pat =
     (if take (length pat) (c # cs) = pat then Some 0 else map_option Suc (wfind cs pat))"

text \<open>\<open>s.rfind(c)\<close> and \<open>s.find_last_of(c)\<close> for a single character: the position of
  its last occurrence.\<close>

fun rfind_char :: "wstring \<Rightarrow> char \<Rightarrow> nat option" where
  "rfind_char [] c = None"
| "rfind_char (x # xs) c =
     (case rfind_char xs c of
        Some p \<Rightarrow> Some (Suc p)
      | None \<Rightarrow> if x = c then Some 0 else None)"

text \<open>\<open>s.rfind(pat)\<close> for a string: the greatest position at which \<open>pat\<close> occurs
  in \<open>s\<close>.\<close>

fun wrfind :: "wstring \<Rightarrow> wstring \<Rightarrow> nat option" where
  "wrfind [] pat = (if pat = [] then Some 0 else None)"
| "wrfind (c # cs) pat =
     (case wrfind cs pat of
        Some p \<Rightarrow> Some (Suc p)
      | None \<Rightarrow> if take (length pat) (c # cs) = pat then Some 0 else None)"

text \<open>WindowUtils.h, \<open>StripLnkExtension\<close>. \<open>compare(pos, n, str)\<close> compares
  \<open>substr(pos, n)\<close> with \<open>str\<close>.\<close>

definition StripLnkExtension :: "wstring \<Rightarrow> wstring" where
  "StripLnkExtension fileLower =
     (let lnkExt = ''.lnk'' in
      if length fileLower \<ge> length lnkExt then
        if take (length lnkExt) (drop (length fileLower - length lnkExt) fileLower) = lnkExt
        then take (length fileLower - length lnkExt) fileLower
        else fileLower
      else fileLower)"

section \<open>The operating system as seen by the program\<close>

text \<open>
  One snapshot of the desktop: what each Win32 query of the source answers.
  \<open>TopLevelWindows\<close> is the sequence \<open>EnumWindows\<close> visits (z-order).
  \<open>GetProcessId\<close> is the call \<open>GetFingerprint\<close> makes on the window handle;
  \<open>GetWindowThreadProcessId\<close> is the one the enumeration callback makes: two different
  queries in the source, so two fields here. \<open>GetWindowText env h\<close> is the title as
  read back by the program (cut at its terminating NUL), and its length is what
  \<open>GetWindowTextLength\<close> reports. \<open>ShellExecuteExW env path\<close> is \<open>None\<close> when the
  shell-open call fails, and otherwise the value of \<open>GetProcessId(sei.hProcess)\<close>.
  \<open>wifstream env path\<close> is the text of the file at \<open>path\<close>, or \<open>None\<close> when the
  input stream cannot be opened.
\<close>

record os_env =
  TopLevelWindows :: "HWND list"
  IsWindow :: "HWND \<Rightarrow> bool"
  IsWindowVisible :: "HWND \<Rightarrow> bool"
  GetWindowThreadProcessId :: "HWND \<Rightarrow> DWORD"
  GetProcessId :: "HWND \<Rightarrow> DWORD"
  GetWindowRect :: "HWND \<Rightarrow> RECT"
  GetClassName :: "HWND \<Rightarrow> wstring"
  GetWindowText :: "HWND \<Rightarrow> wstring"
  GetTickCount64 :: "64 word"
  ShellExecuteExW :: "wstring \<Rightarrow> DWORD option"
  wifstream :: "wstring \<Rightarrow> string option"

text \<open>\<open>EnumWindows(callback, data)\<close>: the callback is applied to each top-level window
  in turn until it returns \<open>FALSE\<close>.\<close>

fun EnumWindows :: "(HWND \<Rightarrow> 'd \<Rightarrow> 'd \<times> bool) \<Rightarrow> HWND list \<Rightarrow> 'd \<Rightarrow> 'd" where
  "EnumWindows callback [] d = d"
| "EnumWindows callback (h # hs) d =
     (case callback h d of
        (d', continue) \<Rightarrow> if continue then EnumWindows callback hs d' else d')"

section \<open>FingerprintUtils.cpp\<close>

definition GetFingerprint :: "os_env \<Rightarrow> HWND \<Rightarrow> TrackedWindow" where
  "GetFingerprint env h =
     \<lparr> processId = GetProcessId env h,
       hwnd = h,
       rect = GetWindowRect env h,
       className = take 255 (GetClassName env h),
       windowTitle =
         (let titleLen = length (GetWindowText env h)
          in if titleLen > 0 then GetWindowText env h else []),
       failCount = 0,
       launchTime = GetTickCount64 env \<rparr>"

definition CompareFingerprints :: "TrackedWindow \<Rightarrow> TrackedWindow \<Rightarrow> bool" where
  "CompareFingerprints twStored twCurrent =
     (if processId twStored \<noteq> processId twCurrent then False
      else if className twStored \<noteq> className twCurrent then False
      else if rc_left (rect twStored) \<noteq> rc_left (rect twCurrent) \<or>
              rc_top (rect twStored) \<noteq> rc_top (rect twCurrent) \<or>
              rc_right (rect twStored) \<noteq> rc_right (rect twCurrent) \<or>
              rc_bottom (rect twStored) \<noteq> rc_bottom (rect twCurrent) then False
      else (let storedTitle = map towlower (windowTitle twStored);
                currentTitle = map towlower (windowTitle twCurrent)
            in storedTitle = currentTitle))"

definition CompareStableAttributes :: "TrackedWindow \<Rightarrow> TrackedWindow \<Rightarrow> bool" where
  "CompareStableAttributes stored current =
     (processId stored = processId current \<and> className stored = className current)"

section \<open>WindowUtils.cpp\<close>

record HandleData =
  processID :: DWORD
  bestHandle :: "HWND option"

definition EnumProcMain :: "os_env \<Rightarrow> HWND \<Rightarrow> HandleData \<Rightarrow> HandleData \<times> bool" where
  "EnumProcMain env h pData =
     (let pid = GetWindowThreadProcessId env h in
      if pid = processID pData \<and> IsWindowVisible env h
      then (pData\<lparr>bestHandle := Some h\<rparr>, False)
      else (pData, True))"

definition GetMainWindowHandle :: "os_env \<Rightarrow> DWORD \<Rightarrow> HWND option" where
  "GetMainWindowHandle env pid =
     bestHandle (EnumWindows (EnumProcMain env) (TopLevelWindows env)
                   \<lparr> processID = pid, bestHandle = None \<rparr>)"

record CallbackData =
  fileName :: wstring
  hwndFound :: "HWND option"

definition EnumProcFile :: "os_env \<Rightarrow> HWND \<Rightarrow> CallbackData \<Rightarrow> CallbackData \<times> bool" where
  "EnumProcFile env h pData =
     (let len = length (GetWindowText env h) in
      if len > 0 then
        (let title = GetWindowText env h;
             titleLower = map towlower title;
             fileLower = StripLnkExtension (map towlower (fileName pData))
         in if fileLower \<noteq> [] \<and> wfind titleLower fileLower \<noteq> None
            then (pData\<lparr>hwndFound := Some h\<rparr>, False)
            else (pData, True))
      else (pData, True))"

definition GetWindowHandleByFileName :: "os_env \<Rightarrow> wstring \<Rightarrow> HWND option" where
  "GetWindowHandleByFileName env name =
     hwndFound (EnumWindows (EnumProcFile env) (TopLevelWindows env)
                  \<lparr> fileName = name, hwndFound = None \<rparr>)"

section \<open>Observable calls\<close>

text \<open>
  The handlers below return, besides the new map, the sequence of calls they made, in
  program order: which handle was tested, captured, compared or activated, which searches
  were run, which messages were shown and how long the thread slept.
\<close>

datatype event =
    IsWindow_call HWND
  | GetFingerprint_call HWND
  | CompareStableAttributes_call TrackedWindow TrackedWindow
  | GetWindowHandleByFileName_call wstring
  | GetMainWindowHandle_call DWORD
  | ActivateTrackedWindow_call HWND
  | ShellExecuteExW_call wstring
  | sleep_for_call nat
  | MessageBox_call HWND wstring wstring
  | ShowIntegratedBrowser_call wstring

section \<open>FileUtils.cpp: LaunchFile\<close>

text \<open>
  The desktop changes while \<open>LaunchFile\<close> sleeps, so it runs against a simulated clock:
  \<open>w t\<close> is the snapshot \<open>t\<close> milliseconds after the call started, and only
  \<open>sleep_for\<close> lets time pass. The poll loop returns the handle it found, the clock at
  which it stopped and the calls it made.
\<close>

definition pollInterval :: nat where "pollInterval = 250"
definition maxPollTime :: nat where "maxPollTime = 1000"

function LaunchFile_poll ::
  "(nat \<Rightarrow> os_env) \<Rightarrow> DWORD \<Rightarrow> nat \<Rightarrow> HWND option \<times> nat \<times> event list" where
  "LaunchFile_poll w pid elapsed =
     (if elapsed < maxPollTime then
        (case GetMainWindowHandle (w elapsed) pid of
           Some hwndLaunched \<Rightarrow> (Some hwndLaunched, elapsed, [GetMainWindowHandle_call pid])
         | None \<Rightarrow>
             (case LaunchFile_poll w pid (elapsed + pollInterval) of
                (r, t, calls) \<Rightarrow>
                  (r, t, GetMainWindowHandle_call pid # sleep_for_call pollInterval # calls)))
      else (None, elapsed, []))"
  by pat_completeness auto
termination
  by (relation "measure (\<lambda>(w, pid, elapsed). maxPollTime - elapsed)")
     (auto simp: pollInterval_def maxPollTime_def)

declare LaunchFile_poll.simps [simp del]

definition LaunchFile ::
  "(nat \<Rightarrow> os_env) \<Rightarrow> wstring \<Rightarrow> HWND \<Rightarrow> fileWindowMap \<Rightarrow> fileWindowMap \<times> event list" where
  "LaunchFile w filePath owner m =
     (case ShellExecuteExW (w 0) filePath of
        Some pid \<Rightarrow>
          (case LaunchFile_poll w pid 0 of
             (Some hwndLaunched, t, calls) \<Rightarrow>
               (map_assign filePath (GetFingerprint (w t) hwndLaunched) m,
                ShellExecuteExW_call filePath # calls @ [GetFingerprint_call hwndLaunched])
           | (None, t, calls) \<Rightarrow> (m, ShellExecuteExW_call filePath # calls))
      | None \<Rightarrow>
          (m, [ShellExecuteExW_call filePath,
               MessageBox_call owner ''Failed to launch file.'' ''Error'']))"

section \<open>FileUtils.cpp: the persisted tracking file\<close>

text \<open>\<open>ofs << processId\<close>: an unsigned number in decimal.\<close>

definition digit_char :: "nat \<Rightarrow> char" where
  "digit_char d = ''0123456789'' ! d"

fun dec_digits :: "nat \<Rightarrow> string" where
  "dec_digits n =
     (if n < 10 then [digit_char n] else dec_digits (n div 10) @ [digit_char (n mod 10)])"

declare dec_digits.simps [simp del]

text \<open>\<open>SaveTrackingMapping\<close> returns the text written, or \<open>None\<close> when the output
  stream could not be opened (\<open>ofs_ok\<close> false) and nothing is written.\<close>

definition SaveTrackingMapping :: "bool \<Rightarrow> fileWindowMap \<Rightarrow> string option" where
  "SaveTrackingMapping ofs_ok m =
     (if \<not> ofs_ok then None
      else Some (concat (map (\<lambda>pair. fst pair @ [tab] @ dec_digits (unat (processId (snd pair)))
                                       @ [newline]) m)))"

text \<open>
  Formatted extraction from a \<open>std::wistringstream\<close>. \<open>iss >> filePath\<close> skips white
  space and takes the characters up to the next white space; it fails when there is none.
  \<open>iss >> processId\<close> skips white space and reads an optional sign and decimal digits;
  it fails when there is no digit or the number does not fit 32 bits, and a minus sign
  negates modulo \<open>2^32\<close>.
\<close>

definition iswspace :: "char \<Rightarrow> bool" where
  "iswspace c = (c \<in> {CHR '' '', CHR 0x09, CHR 0x0A, CHR 0x0B, CHR 0x0C, CHR 0x0D})"

definition extract_wstring :: "wstring \<Rightarrow> (wstring \<times> wstring) option" where
  "extract_wstring s =
     (let s1 = dropWhile iswspace s;
          token = takeWhile (\<lambda>c. \<not> iswspace c) s1
      in if token = [] then None else Some (token, dropWhile (\<lambda>c. \<not> iswspace c) s1))"

definition iswdigit :: "char \<Rightarrow> bool" where
  "iswdigit c = (CHR ''0'' \<le> c \<and> c \<le> CHR ''9'')"

definition digit_value :: "char \<Rightarrow> nat" where
  "digit_value c = of_char c - of_char CHR ''0''"

definition extract_DWORD :: "wstring \<Rightarrow> DWORD option" where
  "extract_DWORD s =
     (let s1 = dropWhile iswspace s;
          negative = (s1 \<noteq> [] \<and> hd s1 = CHR ''-'');
          s2 = (if s1 \<noteq> [] \<and> (hd s1 = CHR ''-'' \<or> hd s1 = CHR ''+'') then tl s1 else s1);
          digits = takeWhile iswdigit s2;
          n = foldl (\<lambda>a c. 10 * a + digit_value c) 0 digits
      in if digits = [] \<or> n \<ge> 2 ^ 32 then None
         else Some (if negative then - word_of_nat n else word_of_nat n))"

text \<open>The body of the \<open>while (std::getline(ifs, line))\<close> loop.\<close>

definition LoadTrackingMapping_line :: "os_env \<Rightarrow> wstring \<Rightarrow> fileWindowMap \<Rightarrow> fileWindowMap" where
  "LoadTrackingMapping_line env line m =
     (case extract_wstring line of
        None \<Rightarrow> m
      | Some (filePath, rest) \<Rightarrow>
          (case extract_DWORD rest of
             None \<Rightarrow> m
           | Some pid \<Rightarrow>
               (let hwndTracked =
                      (case GetMainWindowHandle env pid of
                         Some h \<Rightarrow> Some h
                       | None \<Rightarrow>
                           (case rfind_char filePath backslash of
                              Some pos \<Rightarrow> GetWindowHandleByFileName env (drop (pos + 1) filePath)
                            | None \<Rightarrow> None))
                in case hwndTracked of
                     Some h \<Rightarrow> map_assign filePath (GetFingerprint env h) m
                   | None \<Rightarrow> m)))"

text \<open>\<open>std::getline\<close> takes the characters up to the next newline and discards the
  newline; at the end of the text it fails and the loop ends.\<close>

function LoadTrackingMapping_loop :: "os_env \<Rightarrow> string \<Rightarrow> fileWindowMap \<Rightarrow> fileWindowMap" where
  "LoadTrackingMapping_loop env ifs m =
     (if ifs = [] then m
      else (let line = takeWhile (\<lambda>c. c \<noteq> newline) ifs;
                rest = drop (length line + 1) ifs
            in LoadTrackingMapping_loop env rest (LoadTrackingMapping_line env line m)))"
  by pat_completeness auto
termination
  by (relation "measure (\<lambda>(env, ifs, m). length ifs)") auto

declare LoadTrackingMapping_loop.simps [simp del]

text \<open>The lines that the loop reads from a text, in order.\<close>

function getlines :: "string \<Rightarrow> string list" where
  "getlines ifs =
     (if ifs = [] then []
      else (let line = takeWhile (\<lambda>c. c \<noteq> newline) ifs
            in line # getlines (drop (length line + 1) ifs)))"
  by pat_completeness auto
termination
  by (relation "measure length") auto

declare getlines.simps [simp del]

text \<open>The tracking file is \<open>None\<close> when it cannot be opened.\<close>

definition LoadTrackingMapping :: "os_env \<Rightarrow> string option \<Rightarrow> fileWindowMap \<Rightarrow> fileWindowMap" where
  "LoadTrackingMapping env trackingFile m =
     (case trackingFile of None \<Rightarrow> m | Some ifs \<Rightarrow> LoadTrackingMapping_loop env ifs m)"

section \<open>MainWindow.cpp: the handlers that use the tracking map\<close>

text \<open>Config.h: the monitored folder, the directory \<open>tmp\<close> of drive \<open>C:\<close>.\<close>

definition PROJECT_FOLDER :: wstring where
  "PROJECT_FOLDER = ''C:'' @ [backslash] @ ''tmp''"

subsection \<open>WM_TIMER\<close>

text \<open>
  One iteration of the status loop for the list-view row \<open>name\<close>: the new map, the
  handle \<open>hwndFound\<close> whose state is displayed (\<open>None\<close>: "Not launched") and the calls
  made. The handler runs the same loop twice, over the rows of the File Tracking list and
  over the rows of the CLI list.
\<close>

definition WM_TIMER_row ::
  "os_env \<Rightarrow> fileWindowMap \<Rightarrow> wstring \<Rightarrow> fileWindowMap \<times> HWND option \<times> event list" where
  "WM_TIMER_row env m name =
     (let filePath = PROJECT_FOLDER @ [backslash] @ name in
      case map_of m filePath of
        None \<Rightarrow>
          (m, GetWindowHandleByFileName env name, [GetWindowHandleByFileName_call name])
      | Some stored \<Rightarrow>
          if IsWindow env (hwnd stored) then
            (let currentFp = GetFingerprint env (hwnd stored) in
             if CompareStableAttributes stored currentFp
             then (m, Some (hwnd stored),
                   [IsWindow_call (hwnd stored), GetFingerprint_call (hwnd stored),
                    CompareStableAttributes_call stored currentFp])
             else (map_assign filePath currentFp m, Some (hwnd currentFp),
                   [IsWindow_call (hwnd stored), GetFingerprint_call (hwnd stored),
                    CompareStableAttributes_call stored currentFp]))
          else
            (m, GetWindowHandleByFileName env name,
             [IsWindow_call (hwnd stored), GetWindowHandleByFileName_call name]))"

fun WM_TIMER_rows ::
  "os_env \<Rightarrow> fileWindowMap \<Rightarrow> wstring list \<Rightarrow> fileWindowMap \<times> HWND option list \<times> event list" where
  "WM_TIMER_rows env m [] = (m, [], [])"
| "WM_TIMER_rows env m (name # names) =
     (case WM_TIMER_row env m name of
        (m1, found, calls) \<Rightarrow>
          (case WM_TIMER_rows env m1 names of
             (m2, founds, calls') \<Rightarrow> (m2, found # founds, calls @ calls')))"

definition WM_TIMER ::
  "os_env \<Rightarrow> fileWindowMap \<Rightarrow> wstring list \<Rightarrow> wstring list
     \<Rightarrow> fileWindowMap \<times> HWND option list \<times> event list" where
  "WM_TIMER env m fileTrackingRows cliRows =
     (case WM_TIMER_rows env m fileTrackingRows of
        (m1, founds1, calls1) \<Rightarrow>
          (case WM_TIMER_rows env m1 cliRows of
             (m2, founds2, calls2) \<Rightarrow> (m2, founds1 @ founds2, calls1 @ calls2)))"

subsection \<open>Activation: Return in the CLI edit box, a launcher button, a double click\<close>

text \<open>
  The four activation sites share one body ("normal logic"); they differ in how they form
  the path and the name searched for. The \<open>else\<close> branch, taken when the path is not
  tracked or its handle is not a window, is \<open>NormalLogic_else\<close>. A \<open>.url\<close> file is
  handled before this body is reached (\<open>url_branch\<close> below).
\<close>

definition NormalLogic_else ::
  "(nat \<Rightarrow> os_env) \<Rightarrow> HWND \<Rightarrow> fileWindowMap \<Rightarrow> wstring \<Rightarrow> wstring
     \<Rightarrow> fileWindowMap \<times> event list" where
  "NormalLogic_else w owner m filePath name =
     (case GetWindowHandleByFileName (w 0) name of
        Some found \<Rightarrow>
          (map_assign filePath (GetFingerprint (w 0) found) m,
           [GetWindowHandleByFileName_call name, GetFingerprint_call found,
            ActivateTrackedWindow_call (hwnd (GetFingerprint (w 0) found))])
      | None \<Rightarrow>
          (case LaunchFile w filePath owner m of
             (m', calls) \<Rightarrow> (m', GetWindowHandleByFileName_call name # calls)))"

definition NormalLogic ::
  "(nat \<Rightarrow> os_env) \<Rightarrow> HWND \<Rightarrow> fileWindowMap \<Rightarrow> wstring \<Rightarrow> wstring
     \<Rightarrow> fileWindowMap \<times> event list" where
  "NormalLogic w owner m filePath name =
     (case map_of m filePath of
        None \<Rightarrow> NormalLogic_else w owner m filePath name
      | Some stored \<Rightarrow>
          if IsWindow (w 0) (hwnd stored) then
            (let currentFp = GetFingerprint (w 0) (hwnd stored) in
             if \<not> CompareStableAttributes stored currentFp
             then (map_assign filePath currentFp m,
                   [IsWindow_call (hwnd stored), GetFingerprint_call (hwnd stored),
                    CompareStableAttributes_call stored currentFp,
                    ActivateTrackedWindow_call (hwnd currentFp)])
             else (m,
                   [IsWindow_call (hwnd stored), GetFingerprint_call (hwnd stored),
                    CompareStableAttributes_call stored currentFp,
                    ActivateTrackedWindow_call (hwnd stored)]))
          else
            (case NormalLogic_else w owner m filePath name of
               (m', calls) \<Rightarrow> (m', IsWindow_call (hwnd stored) # calls)))"

text \<open>
  Each activation site first looks at the path: when its lower-cased form ends in
  \<open>.url\<close> the file is read. If it cannot be opened the handler shows a message and
  returns; otherwise the text after \<open>URL=\<close> of the first line that starts with
  \<open>URL=\<close> is taken, and if it is not empty the handler shows it in the integrated
  browser and returns. \<open>url_branch\<close> is \<open>Some\<close> of the calls made when the handler
  returns in this branch, and \<open>None\<close> when it goes on to the normal logic. The branch
  never touches the tracking map.
\<close>

fun url_line :: "wstring list \<Rightarrow> wstring" where
  "url_line [] = []"
| "url_line (line # lines) =
     (if wfind line ''URL='' = Some 0 then drop 4 line else url_line lines)"

definition url_branch :: "os_env \<Rightarrow> HWND \<Rightarrow> wstring \<Rightarrow> event list option" where
  "url_branch env owner filePath =
     (let lowerPath = map towlower filePath in
      if length lowerPath \<ge> 4 \<and> wrfind lowerPath ''.url'' = Some (length lowerPath - 4) then
        (case wifstream env filePath of
           None \<Rightarrow> Some [MessageBox_call owner ''Failed to open .url file.'' ''Error'']
         | Some ifs \<Rightarrow>
             (let url = url_line (getlines ifs) in
              if url \<noteq> [] then Some [ShowIntegratedBrowser_call url] else None))
      else None)"

text \<open>\<open>CLIEditSubclassProc\<close>, \<open>VK_RETURN\<close>; \<open>input\<close> is the text of the edit box
  after trimming.\<close>

definition CLIEditSubclassProc ::
  "(nat \<Rightarrow> os_env) \<Rightarrow> HWND \<Rightarrow> fileWindowMap \<Rightarrow> wstring \<Rightarrow> fileWindowMap \<times> event list" where
  "CLIEditSubclassProc w owner m input =
     (if input = [] then (m, [MessageBox_call owner ''Please enter a file name.'' ''Error''])
      else
        (let filePath = PROJECT_FOLDER @ [backslash] @ input in
         case url_branch (w 0) owner filePath of
           Some calls \<Rightarrow> (m, calls)
         | None \<Rightarrow> NormalLogic w owner m filePath input))"

text \<open>\<open>WM_COMMAND\<close> of a launcher button: the name searched for is what follows the
  last backslash of the path, \<open>filePath.substr(pos + 1)\<close>, where \<open>npos + 1\<close> is 0.\<close>

definition WM_COMMAND_launcher ::
  "(nat \<Rightarrow> os_env) \<Rightarrow> HWND \<Rightarrow> fileWindowMap \<Rightarrow> wstring \<Rightarrow> fileWindowMap \<times> event list" where
  "WM_COMMAND_launcher w owner m filePath =
     (case url_branch (w 0) owner filePath of
        Some calls \<Rightarrow> (m, calls)
      | None \<Rightarrow>
          NormalLogic w owner m filePath
            (drop (case rfind_char filePath backslash of Some pos \<Rightarrow> pos + 1 | None \<Rightarrow> 0)
               filePath))"

text \<open>\<open>NM_DBLCLK\<close> on a row of the File Tracking list or of the CLI list;
  \<open>name\<close> is the row text after trimming. An empty row text does nothing.\<close>

definition NM_DBLCLK ::
  "(nat \<Rightarrow> os_env) \<Rightarrow> HWND \<Rightarrow> fileWindowMap \<Rightarrow> wstring \<Rightarrow> fileWindowMap \<times> event list" where
  "NM_DBLCLK w owner m name =
     (if name = [] then (m, [])
      else
        (let filePath = PROJECT_FOLDER @ [backslash] @ name in
         case url_branch (w 0) owner filePath of
           Some calls \<Rightarrow> (m, calls)
         | None \<Rightarrow> NormalLogic w owner m filePath name))"

subsection \<open>The states of the tracking map\<close>

text \<open>The map starts empty (the constructor of \<open>MainWindow\<close>) and is changed only by
  the operations above.\<close>

inductive reachable :: "fileWindowMap \<Rightarrow> bool" where
  start: "reachable []"
| load: "reachable m \<Longrightarrow> reachable (LoadTrackingMapping env trackingFile m)"
| launch: "reachable m \<Longrightarrow> reachable (fst (LaunchFile w filePath owner m))"
| timer: "reachable m \<Longrightarrow> reachable (fst (WM_TIMER env m fileTrackingRows cliRows))"
| cli: "reachable m \<Longrightarrow> reachable (fst (CLIEditSubclassProc w owner m input))"
| button: "reachable m \<Longrightarrow> reachable (fst (WM_COMMAND_launcher w owner m filePath))"
| dblclk: "reachable m \<Longrightarrow> reachable (fst (NM_DBLCLK w owner m name))"

section \<open>Example desktops\<close>

definition demo_rect :: RECT where
  "demo_rect = \<lparr> rc_left = 0, rc_top = 0, rc_right = 800, rc_bottom = 600 \<rparr>"

definition desktop :: os_env where
  "desktop =
     \<lparr> TopLevelWindows = [3, 5, 9],
       IsWindow = (\<lambda>h. h = 3 \<or> h = 5 \<or> h = 9),
       IsWindowVisible = (\<lambda>h. h = 5 \<or> h = 9),
       GetWindowThreadProcessId = (\<lambda>h. if h = 5 then 1234 else if h = 9 then 4321 else 100),
       GetProcessId = (\<lambda>h. if h = 5 then 1234 else if h = 9 then 4321 else 100),
       GetWindowRect = (\<lambda>h. demo_rect),
       GetClassName = (\<lambda>h. if h = 5 then ''OpusApp'' else ''Notepad''),
       GetWindowText =
         (\<lambda>h. if h = 3 then ''Untitled - Notepad''
              else if h = 5 then ''REPORT.docx - Word''
              else if h = 9 then ''report.docx - Viewer'' else []),
       GetTickCount64 = 5000,
       ShellExecuteExW = (\<lambda>path. Some 1234),
       wifstream = (\<lambda>path. None) \<rparr>"

definition fp_word :: TrackedWindow where
  "fp_word = \<lparr> processId = 1234, hwnd = 5, rect = demo_rect, className = ''OpusApp'',
               windowTitle = ''Report.docx - Word'', failCount = 0, launchTime = 4000 \<rparr>"


definition arrival_world :: "nat \<Rightarrow> nat \<Rightarrow> os_env" where
  "arrival_world arrival t = (if arrival \<le> t then desktop else desktop\<lparr>TopLevelWindows := []\<rparr>)"

definition no_shell_world :: "nat \<Rightarrow> os_env" where
  "no_shell_world t = desktop\<lparr>ShellExecuteExW := (\<lambda>path. None)\<rparr>"

definition report_path :: wstring where
  "report_path = PROJECT_FOLDER @ [backslash] @ ''report.docx''"

definition fp_stale :: TrackedWindow where
  "fp_stale = fp_word\<lparr>windowTitle := ''Document1 - Word''\<rparr>"

definition still_world :: "nat \<Rightarrow> os_env" where
  "still_world t = desktop"

definition stale_map :: fileWindowMap where
  "stale_map = [(report_path, fp_stale)]"

definition closed_stored :: TrackedWindow where
  "closed_stored = fp_word\<lparr>hwnd := 7\<rparr>"

definition closed_map :: fileWindowMap where
  "closed_map = [(report_path, closed_stored)]"

definition budget_path :: wstring where
  "budget_path = PROJECT_FOLDER @ [backslash] @ ''budget.xlsx''"

definition tracking_text :: string where
  "tracking_text =
     budget_path @ [tab] @ ''77'' @ [newline] @ report_path @ [tab] @ ''1234'' @ [newline]"

definition spaced_path :: wstring where
  "spaced_path = PROJECT_FOLDER @ [backslash] @ ''my report.docx''"

definition spaced_map :: fileWindowMap where
  "spaced_map = [(spaced_path, fp_word)]"

definition link_path :: wstring where
  "link_path = PROJECT_FOLDER @ [backslash] @ ''Link.URL''"

definition url_desktop :: os_env where
  "url_desktop = desktop\<lparr>wifstream :=
     (\<lambda>path. if path = link_path
              then Some (''[InternetShortcut]'' @ [newline] @ ''URL=https://example.org/''
                           @ [newline])
              else None)\<rparr>"

section \<open>Auxiliary lemmas\<close>

lemma towlower_Char:
  "towlower (Char b0 b1 b2 b3 b4 b5 b6 b7) =
     (if CHR ''A'' \<le> Char b0 b1 b2 b3 b4 b5 b6 b7 \<and> Char b0 b1 b2 b3 b4 b5 b6 b7 \<le> CHR ''Z''
      then Char b0 b1 b2 b3 b4 True b6 b7 else Char b0 b1 b2 b3 b4 b5 b6 b7)"
  by (auto simp add: towlower_def char_of_def bit_simps less_eq_char_def)

lemma EnumWindows_EnumProcMain:
  "bestHandle (EnumWindows (EnumProcMain env) hs \<lparr> processID = pid, bestHandle = None \<rparr>) =
     List.find (\<lambda>h. GetWindowThreadProcessId env h = pid \<and> IsWindowVisible env h) hs"
  by (induction hs) (simp_all add: EnumProcMain_def)

lemma GetMainWindowHandle_find:
  "GetMainWindowHandle env pid =
     List.find (\<lambda>h. GetWindowThreadProcessId env h = pid \<and> IsWindowVisible env h)
       (TopLevelWindows env)"
  by (simp add: GetMainWindowHandle_def EnumWindows_EnumProcMain)

lemma wfind_Some_iff: "wfind s pat \<noteq> None \<longleftrightarrow> (\<exists>ps ss. s = ps @ pat @ ss)"
proof (induction s)
  case Nil
  then show ?case by auto
next
  case (Cons c cs)
  show ?case
  proof (cases "take (length pat) (c # cs) = pat")
    case True
    then have "c # cs = [] @ pat @ drop (length pat) (c # cs)"
      by (metis append_Nil append_take_drop_id)
    then have "\<exists>ps ss. c # cs = ps @ pat @ ss" by blast
    with True show ?thesis by simp
  next
    case False
    have "(\<exists>ps ss. c # cs = ps @ pat @ ss) \<longleftrightarrow> (\<exists>ps ss. cs = ps @ pat @ ss)"
    proof
      assume "\<exists>ps ss. c # cs = ps @ pat @ ss"
      then obtain ps ss where eq: "c # cs = ps @ pat @ ss" by blast
      show "\<exists>ps ss. cs = ps @ pat @ ss"
      proof (cases ps)
        case Nil
        with eq have "take (length pat) (c # cs) = pat" by simp
        with False show ?thesis by simp
      next
        case (Cons p ps')
        with eq have "cs = ps' @ pat @ ss" by simp
        then show ?thesis by blast
      qed
    next
      assume "\<exists>ps ss. cs = ps @ pat @ ss"
      then obtain ps ss where "cs = ps @ pat @ ss" by blast
      then have "c # cs = (c # ps) @ pat @ ss" by simp
      then show "\<exists>ps ss. c # cs = ps @ pat @ ss" by blast
    qed
    with False Cons.IH show ?thesis by simp
  qed
qed

lemma EnumWindows_EnumProcFile:
  "hwndFound (EnumWindows (EnumProcFile env) hs \<lparr> fileName = name, hwndFound = None \<rparr>) =
     List.find (\<lambda>h. GetWindowText env h \<noteq> [] \<and> StripLnkExtension (map towlower name) \<noteq> [] \<and>
                     wfind (map towlower (GetWindowText env h)) (StripLnkExtension (map towlower name)) \<noteq> None) hs"
  by (induction hs) (simp_all add: EnumProcFile_def Let_def)

lemma GetWindowHandleByFileName_find:
  "GetWindowHandleByFileName env name =
     List.find (\<lambda>h. StripLnkExtension (map towlower name) \<noteq> [] \<and>
                     (\<exists>ps ss. map towlower (GetWindowText env h) =
                                ps @ StripLnkExtension (map towlower name) @ ss))
       (TopLevelWindows env)"
proof -
  have "(GetWindowText env h \<noteq> [] \<and> StripLnkExtension (map towlower name) \<noteq> [] \<and>
          wfind (map towlower (GetWindowText env h)) (StripLnkExtension (map towlower name)) \<noteq> None)
        \<longleftrightarrow> (StripLnkExtension (map towlower name) \<noteq> [] \<and>
                     (\<exists>ps ss. map towlower (GetWindowText env h) =
                                ps @ StripLnkExtension (map towlower name) @ ss))" for h
  proof -
    have "\<not> (\<exists>ps ss. map towlower (GetWindowText env h) =
                                ps @ StripLnkExtension (map towlower name) @ ss)"
      if "GetWindowText env h = []" "StripLnkExtension (map towlower name) \<noteq> []"
      using that by simp
    then show ?thesis
      unfolding wfind_Some_iff by blast
  qed
  then show ?thesis
    by (simp add: GetWindowHandleByFileName_def EnumWindows_EnumProcFile)
qed

lemma map_of_map_assign: "map_of (map_assign k v m) = (map_of m)(k \<mapsto> v)"
  by (induction m) (auto simp: fun_eq_iff)

lemma set_map_assign: "set (map_assign k v m) \<subseteq> insert (k, v) (set m)"
  by (induction m) (auto split: if_splits)

lemma keys_map_assign: "fst ` set (map_assign k v m) = insert k (fst ` set m)"
proof -
  have "dom (map_of (map_assign k v m)) = insert k (dom (map_of m))"
    by (simp add: map_of_map_assign)
  then show ?thesis by (simp add: dom_map_of_conv_image_fst)
qed

lemma map_assign_sorted:
  "sorted_wrt (<) (map fst m) \<Longrightarrow> sorted_wrt (<) (map fst (map_assign k v m))"
proof (induction m)
  case Nil
  then show ?case by simp
next
  case (Cons a m)
  obtain k' v' where a: "a = (k', v')" by (cases a)
  from Cons.prems a have tl: "sorted_wrt (<) (map fst m)" and hd: "\<forall>x\<in>set m. k' < fst x"
    by auto
  show ?case
  proof (cases "k = k'")
    case True
    with Cons.prems a show ?thesis by auto
  next
    case False
    show ?thesis
    proof (cases "k < k'")
      case True
      with False Cons.prems a show ?thesis by (auto intro: less_trans)
    next
      case nl: False
      with False have "k' < k" by auto
      moreover have "fst ` set (map_assign k v m) = insert k (fst ` set m)" by (rule keys_map_assign)
      ultimately have "\<forall>x\<in>set (map_assign k v m). k' < fst x"
        using hd by (metis image_iff insert_iff)
      with Cons.IH [OF tl] False nl a show ?thesis by simp
    qed
  qed
qed

lemma StripLnkExtension_append: "StripLnkExtension (s @ ''.lnk'') = s"
  by (simp add: StripLnkExtension_def)

lemma LaunchFile_poll_unrolled:
  "LaunchFile_poll w pid 0 =
     (case GetMainWindowHandle (w 0) pid of
        Some h \<Rightarrow> (Some h, 0, [GetMainWindowHandle_call pid])
      | None \<Rightarrow>
     (case GetMainWindowHandle (w 250) pid of
        Some h \<Rightarrow> (Some h, 250, [GetMainWindowHandle_call pid, sleep_for_call 250,
                                  GetMainWindowHandle_call pid])
      | None \<Rightarrow>
     (case GetMainWindowHandle (w 500) pid of
        Some h \<Rightarrow> (Some h, 500, [GetMainWindowHandle_call pid, sleep_for_call 250,
                                  GetMainWindowHandle_call pid, sleep_for_call 250,
                                  GetMainWindowHandle_call pid])
      | None \<Rightarrow>
     (case GetMainWindowHandle (w 750) pid of
        Some h \<Rightarrow> (Some h, 750, [GetMainWindowHandle_call pid, sleep_for_call 250,
                                  GetMainWindowHandle_call pid, sleep_for_call 250,
                                  GetMainWindowHandle_call pid, sleep_for_call 250,
                                  GetMainWindowHandle_call pid])
      | None \<Rightarrow> (None, 1000, [GetMainWindowHandle_call pid, sleep_for_call 250,
                                  GetMainWindowHandle_call pid, sleep_for_call 250,
                                  GetMainWindowHandle_call pid, sleep_for_call 250,
                                  GetMainWindowHandle_call pid, sleep_for_call 250])))))"
  by (simp add: LaunchFile_poll.simps [of w pid 0] LaunchFile_poll.simps [of w pid 250]
      LaunchFile_poll.simps [of w pid 500] LaunchFile_poll.simps [of w pid 750]
      LaunchFile_poll.simps [of w pid 1000] pollInterval_def maxPollTime_def
      split: option.splits)

lemma GetMainWindowHandle_desktop: "GetMainWindowHandle desktop 1234 = Some 5"
  by (simp add: GetMainWindowHandle_def EnumProcMain_def desktop_def)

lemma GetMainWindowHandle_empty: "GetMainWindowHandle (desktop\<lparr>TopLevelWindows := []\<rparr>) pid = None"
  by (simp add: GetMainWindowHandle_def)

lemma arrival_world_main:
  "GetMainWindowHandle (arrival_world arrival t) 1234 = (if arrival \<le> t then Some 5 else None)"
  by (simp add: arrival_world_def GetMainWindowHandle_desktop GetMainWindowHandle_empty)

lemma arrival_world_shell: "ShellExecuteExW (arrival_world arrival t) path = Some 1234"
  by (simp add: arrival_world_def desktop_def)

lemma GetMainWindowHandle_enumerated:
  "GetMainWindowHandle env pid = Some h \<Longrightarrow> h \<in> set (TopLevelWindows env)"
  by (auto simp: GetMainWindowHandle_find find_Some_iff)

lemma GetWindowHandleByFileName_enumerated:
  "GetWindowHandleByFileName env name = Some h \<Longrightarrow> h \<in> set (TopLevelWindows env)"
  by (auto simp: GetWindowHandleByFileName_find find_Some_iff)

lemma LaunchFile_poll_found:
  "LaunchFile_poll w pid elapsed = (Some h, t, calls) \<Longrightarrow> GetMainWindowHandle (w t) pid = Some h"
proof (induction w pid elapsed arbitrary: calls rule: LaunchFile_poll.induct)
  case (1 w pid elapsed)
  show ?case
  proof (cases "elapsed < maxPollTime")
    case False
    with "1.prems" show ?thesis by (simp add: LaunchFile_poll.simps [of w pid elapsed])
  next
    case True
    show ?thesis
    proof (cases "GetMainWindowHandle (w elapsed) pid")
      case (Some h')
      with True "1.prems" show ?thesis
        by (simp add: LaunchFile_poll.simps [of w pid elapsed])
    next
      case None
      obtain r t' calls' where rec: "LaunchFile_poll w pid (elapsed + pollInterval) = (r, t', calls')"
        by (cases "LaunchFile_poll w pid (elapsed + pollInterval)")
      with True None "1.prems" have "r = Some h" "t' = t"
        by (simp_all add: LaunchFile_poll.simps [of w pid elapsed])
      with rec "1.IH" [OF True None] show ?thesis by simp
    qed
  qed
qed

lemma LaunchFile_poll_calls:
  "set (snd (snd (LaunchFile_poll w pid elapsed)))
     \<subseteq> {GetMainWindowHandle_call pid, sleep_for_call pollInterval}"
proof (induction w pid elapsed rule: LaunchFile_poll.induct)
  case (1 w pid elapsed)
  show ?case
  proof (cases "elapsed < maxPollTime")
    case False
    then show ?thesis by (simp add: LaunchFile_poll.simps [of w pid elapsed])
  next
    case True
    show ?thesis
    proof (cases "GetMainWindowHandle (w elapsed) pid")
      case (Some h')
      with True show ?thesis
        by (simp add: LaunchFile_poll.simps [of w pid elapsed])
    next
      case None
      with True "1.IH" [OF True None] show ?thesis
        by (auto simp add: LaunchFile_poll.simps [of w pid elapsed] split: prod.splits)
    qed
  qed
qed

lemma LaunchFile_calls:
  assumes "c \<in> set (snd (LaunchFile w filePath owner m))"
  shows "(\<exists>h t. c = GetFingerprint_call h \<and> h \<in> set (TopLevelWindows (w t))) \<or>
         (\<forall>h. c \<noteq> GetFingerprint_call h) \<and> (\<forall>a b. c \<noteq> CompareStableAttributes_call a b)"
proof (cases "ShellExecuteExW (w 0) filePath")
  case None
  with assms show ?thesis by (auto simp: LaunchFile_def)
next
  case (Some pid)
  obtain r t calls where p: "LaunchFile_poll w pid 0 = (r, t, calls)"
    by (cases "LaunchFile_poll w pid 0")
  from LaunchFile_poll_calls [of w pid 0] p
  have calls: "set calls \<subseteq> {GetMainWindowHandle_call pid, sleep_for_call pollInterval}" by simp
  show ?thesis
  proof (cases r)
    case None
    with assms Some p calls show ?thesis by (auto simp: LaunchFile_def)
  next
    case (Some h)
    with p have "GetMainWindowHandle (w t) pid = Some h" by (simp add: LaunchFile_poll_found)
    then have "h \<in> set (TopLevelWindows (w t))" by (rule GetMainWindowHandle_enumerated)
    with assms \<open>ShellExecuteExW (w 0) filePath = Some pid\<close> p Some calls show ?thesis
      by (auto simp: LaunchFile_def)
  qed
qed

lemma stale_facts:
  "map_of stale_map (PROJECT_FOLDER @ [backslash] @ ''report.docx'') = Some fp_stale"
  "IsWindow desktop (hwnd fp_stale)"
  "processId (GetFingerprint desktop (hwnd fp_stale)) = processId fp_stale"
  "className (GetFingerprint desktop (hwnd fp_stale)) = className fp_stale"
  "windowTitle (GetFingerprint desktop (hwnd fp_stale)) = ''REPORT.docx - Word''"
  "windowTitle fp_stale = ''Document1 - Word''"
  "hwnd fp_stale = 5"
  by (simp_all add: stale_map_def report_path_def fp_stale_def fp_word_def desktop_def
      GetFingerprint_def)

lemma closed_facts:
  "map_of closed_map (PROJECT_FOLDER @ [backslash] @ ''report.docx'') = Some closed_stored"
  "\<not> IsWindow (still_world 0) (hwnd closed_stored)"
  "\<forall>t. hwnd closed_stored \<notin> set (TopLevelWindows (still_world t))"
  "hwnd closed_stored = 7"
  by (simp_all add: closed_map_def closed_stored_def report_path_def fp_word_def desktop_def
      still_world_def)

lemma GetWindowHandleByFileName_desktop:
  "GetWindowHandleByFileName desktop ''report.docx'' = Some 5"
  by (simp add: GetWindowHandleByFileName_def EnumProcFile_def desktop_def
      StripLnkExtension_def towlower_Char)

lemma map_assign_pres:
  assumes "\<forall>x \<in> set m. P (snd x)" and "P v"
  shows "\<forall>x \<in> set (map_assign k v m). P (snd x)"
  using assms set_map_assign [of k v m] by auto

lemma getlines_Nil: "getlines [] = []"
  by (subst getlines.simps) simp

lemma LoadTrackingMapping_loop_Nil: "LoadTrackingMapping_loop env [] m = m"
  by (subst LoadTrackingMapping_loop.simps) simp

lemma LoadTrackingMapping_loop_foldl:
  "LoadTrackingMapping_loop env ifs m =
     foldl (\<lambda>m line. LoadTrackingMapping_line env line m) m (getlines ifs)"
proof (induction env ifs m rule: LoadTrackingMapping_loop.induct)
  case (1 env ifs m)
  show ?case
  proof (cases "ifs = []")
    case True
    then show ?thesis
      by (simp add: LoadTrackingMapping_loop_Nil getlines_Nil)
  next
    case False
    with "1.IH" [OF False refl refl] show ?thesis
      by (simp add: LoadTrackingMapping_loop.simps [of env ifs] getlines.simps [of ifs] Let_def)
  qed
qed

lemma LoadTrackingMapping_line_pres:
  assumes "\<And>env h. P (GetFingerprint env h)" and "\<forall>x \<in> set m. P (snd x)"
  shows "\<forall>x \<in> set (LoadTrackingMapping_line env line m). P (snd x)"
  using assms
  by (auto simp: LoadTrackingMapping_line_def Let_def
      split: option.splits prod.splits dest!: set_map_assign [THEN subsetD])

lemma foldl_line_pres:
  assumes "\<And>env h. P (GetFingerprint env h)"
  shows "\<forall>x \<in> set m. P (snd x) \<Longrightarrow>
         \<forall>x \<in> set (foldl (\<lambda>m line. LoadTrackingMapping_line env line m) m ls). P (snd x)"
proof (induction ls arbitrary: m)
  case Nil
  then show ?case by simp
next
  case (Cons l ls)
  from LoadTrackingMapping_line_pres [of P m env l, OF assms Cons.prems]
  have "\<forall>x \<in> set (LoadTrackingMapping_line env l m). P (snd x)" .
  from Cons.IH [OF this] show ?case by simp
qed

lemma LoadTrackingMapping_pres:
  assumes "\<And>env h. P (GetFingerprint env h)" and "\<forall>x \<in> set m. P (snd x)"
  shows "\<forall>x \<in> set (LoadTrackingMapping env trackingFile m). P (snd x)"
proof (cases trackingFile)
  case None
  with assms(2) show ?thesis by (simp add: LoadTrackingMapping_def)
next
  case (Some ifs)
  with foldl_line_pres [of P m env "getlines ifs", OF assms] show ?thesis
    by (simp add: LoadTrackingMapping_def LoadTrackingMapping_loop_foldl)
qed

lemma LaunchFile_pres:
  assumes "\<And>env h. P (GetFingerprint env h)" and "\<forall>x \<in> set m. P (snd x)"
  shows "\<forall>x \<in> set (fst (LaunchFile w filePath owner m)). P (snd x)"
  using assms
  by (auto simp: LaunchFile_def split: option.splits prod.splits
      dest!: set_map_assign [THEN subsetD])

lemma WM_TIMER_row_pres:
  assumes "\<And>env h. P (GetFingerprint env h)" and "\<forall>x \<in> set m. P (snd x)"
  shows "\<forall>x \<in> set (fst (WM_TIMER_row env m name)). P (snd x)"
  using assms
  by (auto simp: WM_TIMER_row_def Let_def split: option.splits
      dest!: set_map_assign [THEN subsetD])

lemma WM_TIMER_rows_pres:
  assumes "\<And>env h. P (GetFingerprint env h)"
  shows "\<forall>x \<in> set m. P (snd x) \<Longrightarrow> \<forall>x \<in> set (fst (WM_TIMER_rows env m names)). P (snd x)"
proof (induction names arbitrary: m)
  case Nil
  then show ?case by simp
next
  case (Cons name names)
  obtain m1 found calls where r: "WM_TIMER_row env m name = (m1, found, calls)"
    by (cases "WM_TIMER_row env m name")
  with WM_TIMER_row_pres [of P m env name, OF assms Cons.prems]
  have "\<forall>x \<in> set m1. P (snd x)" by simp
  from Cons.IH [OF this] r show ?case by (simp split: prod.splits)
qed

lemma WM_TIMER_pres:
  assumes "\<And>env h. P (GetFingerprint env h)" and "\<forall>x \<in> set m. P (snd x)"
  shows "\<forall>x \<in> set (fst (WM_TIMER env m rows1 rows2)). P (snd x)"
proof -
  obtain m1 f1 c1 where r1: "WM_TIMER_rows env m rows1 = (m1, f1, c1)"
    by (cases "WM_TIMER_rows env m rows1")
  with WM_TIMER_rows_pres [of P m env rows1, OF assms] have "\<forall>x \<in> set m1. P (snd x)" by simp
  from WM_TIMER_rows_pres [of P m1 env rows2, OF assms(1) this] r1 show ?thesis
    by (simp add: WM_TIMER_def split: prod.splits)
qed

lemma NormalLogic_else_pres:
  assumes "\<And>env h. P (GetFingerprint env h)" and "\<forall>x \<in> set m. P (snd x)"
  shows "\<forall>x \<in> set (fst (NormalLogic_else w owner m filePath name)). P (snd x)"
proof (cases "GetWindowHandleByFileName (w 0) name")
  case None
  with LaunchFile_pres [of P m w filePath owner, OF assms] show ?thesis
    by (simp add: NormalLogic_else_def split: prod.splits)
next
  case (Some found)
  with map_assign_pres [of m P "GetFingerprint (w 0) found" filePath, OF assms(2) assms(1)]
  show ?thesis by (simp add: NormalLogic_else_def)
qed

lemma NormalLogic_pres:
  assumes "\<And>env h. P (GetFingerprint env h)" and "\<forall>x \<in> set m. P (snd x)"
  shows "\<forall>x \<in> set (fst (NormalLogic w owner m filePath name)). P (snd x)"
proof (cases "map_of m filePath")
  case None
  with NormalLogic_else_pres [of P m w owner filePath name, OF assms] show ?thesis
    by (simp add: NormalLogic_def)
next
  case (Some stored)
  show ?thesis
  proof (cases "IsWindow (w 0) (hwnd stored)")
    case False
    with Some NormalLogic_else_pres [of P m w owner filePath name, OF assms] show ?thesis
      by (simp add: NormalLogic_def split: prod.splits)
  next
    case True
    with Some assms(2)
      map_assign_pres [of m P "GetFingerprint (w 0) (hwnd stored)" filePath, OF assms(2) assms(1)]
    show ?thesis by (simp add: NormalLogic_def Let_def)
  qed
qed

lemma reachable_pres:
  assumes "\<And>env h. P (GetFingerprint env h)" and "reachable m"
  shows "\<forall>x \<in> set m. P (snd x)"
  using assms(2)
proof (induction rule: reachable.induct)
  case start
  show ?case by simp
next
  case (load m env trackingFile)
  then show ?case by (intro LoadTrackingMapping_pres assms(1))
next
  case (launch m w filePath owner)
  then show ?case by (intro LaunchFile_pres assms(1))
next
  case (timer m env fileTrackingRows cliRows)
  then show ?case by (intro WM_TIMER_pres assms(1))
next
  case (cli m w owner input)
  then show ?case
    using NormalLogic_pres [of P m w owner "PROJECT_FOLDER @ [backslash] @ input" input, OF assms(1)]
    by (simp add: CLIEditSubclassProc_def Let_def split: option.splits)
next
  case (button m w owner filePath)
  then show ?case
    using NormalLogic_pres [of P m w owner filePath, OF assms(1)]
    by (simp add: WM_COMMAND_launcher_def split: option.splits)
next
  case (dblclk m w owner name)
  then show ?case
    using NormalLogic_pres [of P m w owner "PROJECT_FOLDER @ [backslash] @ name" name, OF assms(1)]
    by (simp add: NM_DBLCLK_def Let_def split: option.splits)
qed

lemma LoadTrackingMapping_line_absent:
  assumes "map_of m path = None"
      and "\<forall>rest pid. extract_wstring line = Some (path, rest) \<and> extract_DWORD rest = Some pid \<longrightarrow>
             GetMainWindowHandle env pid = None \<and>
             (\<forall>pos. rfind_char path backslash = Some pos \<longrightarrow>
                 GetWindowHandleByFileName env (drop (pos + 1) path) = None)"
  shows "map_of (LoadTrackingMapping_line env line m) path = None"
proof (cases "extract_wstring line")
  case None
  with assms(1) show ?thesis by (simp add: LoadTrackingMapping_line_def)
next
  case (Some tok)
  obtain filePath rest where tok: "tok = (filePath, rest)" by (cases tok)
  show ?thesis
  proof (cases "extract_DWORD rest")
    case None
    with Some tok assms(1) show ?thesis by (simp add: LoadTrackingMapping_line_def)
  next
    case (Some pid)
    show ?thesis
    proof (cases "filePath = path")
      case False
      with assms(1) \<open>extract_wstring line = Some tok\<close> tok Some show ?thesis
        by (simp add: LoadTrackingMapping_line_def Let_def map_of_map_assign
            split: option.splits)
    next
      case True
      with assms(2) \<open>extract_wstring line = Some tok\<close> tok Some
      have "GetMainWindowHandle env pid = None"
        and "\<forall>pos. rfind_char path backslash = Some pos \<longrightarrow>
                 GetWindowHandleByFileName env (drop (pos + 1) path) = None"
        by blast+
      with True assms(1) \<open>extract_wstring line = Some tok\<close> tok Some show ?thesis
        by (simp add: LoadTrackingMapping_line_def Let_def split: option.splits)
    qed
  qed
qed

lemma foldl_line_absent:
  "map_of m path = None \<Longrightarrow>
   \<forall>line \<in> set ls. \<forall>rest pid.
      extract_wstring line = Some (path, rest) \<and> extract_DWORD rest = Some pid \<longrightarrow>
        GetMainWindowHandle env pid = None \<and>
        (\<forall>pos. rfind_char path backslash = Some pos \<longrightarrow>
            GetWindowHandleByFileName env (drop (pos + 1) path) = None) \<Longrightarrow>
   map_of (foldl (\<lambda>m line. LoadTrackingMapping_line env line m) m ls) path = None"
proof (induction ls arbitrary: m)
  case Nil
  then show ?case by simp
next
  case (Cons l ls)
  from Cons.prems(2)
  have l: "\<forall>rest pid. extract_wstring l = Some (path, rest) \<and> extract_DWORD rest = Some pid \<longrightarrow>
             GetMainWindowHandle env pid = None \<and>
             (\<forall>pos. rfind_char path backslash = Some pos \<longrightarrow>
                 GetWindowHandleByFileName env (drop (pos + 1) path) = None)"
    by (meson list.set_intros(1))
  from Cons.prems(1) l have "map_of (LoadTrackingMapping_line env l m) path = None"
    by (rule LoadTrackingMapping_line_absent)
  moreover from Cons.prems(2)
  have "\<forall>line \<in> set ls. \<forall>rest pid.
      extract_wstring line = Some (path, rest) \<and> extract_DWORD rest = Some pid \<longrightarrow>
        GetMainWindowHandle env pid = None \<and>
        (\<forall>pos. rfind_char path backslash = Some pos \<longrightarrow>
            GetWindowHandleByFileName env (drop (pos + 1) path) = None)"
    by (meson list.set_intros(2))
  ultimately have "map_of (foldl (\<lambda>m line. LoadTrackingMapping_line env line m)
                      (LoadTrackingMapping_line env l m) ls) path = None"
    by (rule Cons.IH)
  then show ?case by simp
qed

lemma getlines_tracking_text:
  "getlines tracking_text = [budget_path @ tab # ''77'', report_path @ tab # ''1234'']"
  by (simp add: tracking_text_def budget_path_def report_path_def backslash_def tab_def newline_def PROJECT_FOLDER_def getlines.simps)

lemma extract_budget_line:
  "extract_wstring (budget_path @ tab # ''77'') = Some (budget_path, tab # ''77'')"
  "extract_wstring (report_path @ tab # ''1234'') = Some (report_path, tab # ''1234'')"
  "extract_DWORD (tab # ''77'') = Some 77"
  "extract_DWORD (tab # ''1234'') = Some 1234"
  "rfind_char budget_path backslash = Some 6"
  "rfind_char report_path backslash = Some 6"
  "drop 7 budget_path = ''budget.xlsx''"
  "budget_path \<noteq> report_path"
  "report_path \<noteq> budget_path"
  by (simp_all add: extract_wstring_def extract_DWORD_def budget_path_def report_path_def
      backslash_def tab_def newline_def PROJECT_FOLDER_def iswspace_def iswdigit_def digit_value_def less_eq_char_def)

lemma search_budget:
  "GetMainWindowHandle desktop 77 = None"
  "GetWindowHandleByFileName desktop ''budget.xlsx'' = None"
  by (simp_all add: GetMainWindowHandle_def EnumProcMain_def GetWindowHandleByFileName_def
      EnumProcFile_def desktop_def StripLnkExtension_def towlower_Char)

lemma Save_spaced:
  "SaveTrackingMapping True spaced_map = Some (spaced_path @ [tab] @ ''1234'' @ [newline])"
  by (simp add: SaveTrackingMapping_def spaced_map_def fp_word_def dec_digits.simps
      digit_char_def)

lemma digit_char_props:
  assumes "d < 10"
  shows "iswdigit (digit_char d)" and "digit_value (digit_char d) = d"
    and "\<not> iswspace (digit_char d)" and "digit_char d \<noteq> CHR ''-''" and "digit_char d \<noteq> CHR ''+''"
    and "digit_char d \<noteq> newline"
proof -
  from assms consider "d = 0" | "d = 1" | "d = 2" | "d = 3" | "d = 4" | "d = 5" | "d = 6"
    | "d = 7" | "d = 8" | "d = 9"
    by atomize_elim arith
  then have "iswdigit (digit_char d) \<and> digit_value (digit_char d) = d \<and>
      \<not> iswspace (digit_char d) \<and> digit_char d \<noteq> CHR ''-'' \<and> digit_char d \<noteq> CHR ''+'' \<and>
      digit_char d \<noteq> newline"
    by cases
      (simp_all add: digit_char_def iswdigit_def digit_value_def iswspace_def newline_def
        less_eq_char_def)
  then show "iswdigit (digit_char d)" and "digit_value (digit_char d) = d"
    and "\<not> iswspace (digit_char d)" and "digit_char d \<noteq> CHR ''-''" and "digit_char d \<noteq> CHR ''+''"
    and "digit_char d \<noteq> newline"
    by blast+
qed

lemma dec_digits_props:
  "dec_digits n \<noteq> [] \<and> (\<forall>c \<in> set (dec_digits n). \<exists>d < 10. c = digit_char d) \<and>
   foldl (\<lambda>a c. 10 * a + digit_value c) 0 (dec_digits n) = n"
proof (induction n rule: dec_digits.induct)
  case (1 n)
  show ?case
  proof (cases "n < 10")
    case True
    then show ?thesis
      by (subst (1 2 3) dec_digits.simps) (auto simp: digit_char_props)
  next
    case False
    have "\<exists>d < 10. digit_char (n mod 10) = digit_char d"
      by (rule exI [of _ "n mod 10"]) simp
    with False "1.IH" show ?thesis
      by (subst (1 2 3) dec_digits.simps) (auto simp: digit_char_props)
  qed
qed

lemma extract_wstring_record:
  assumes "path \<noteq> []" and "\<forall>c \<in> set path. \<not> iswspace c"
  shows "extract_wstring (path @ tab # ds) = Some (path, tab # ds)"
proof -
  obtain c cs where path: "path = c # cs" using assms(1) by (cases path) auto
  with assms(2) have "\<not> iswspace c" by simp
  with path have 1: "dropWhile iswspace (path @ tab # ds) = path @ tab # ds" by simp
  have ws: "iswspace tab" by (simp add: iswspace_def tab_def)
  from assms(2) have "takeWhile (\<lambda>c. \<not> iswspace c) (path @ tab # ds) =
      path @ takeWhile (\<lambda>c. \<not> iswspace c) (tab # ds)"
    by (intro takeWhile_append2) simp
  with ws have 2: "takeWhile (\<lambda>c. \<not> iswspace c) (path @ tab # ds) = path" by simp
  from assms(2) have "dropWhile (\<lambda>c. \<not> iswspace c) (path @ tab # ds) =
      dropWhile (\<lambda>c. \<not> iswspace c) (tab # ds)"
    by (intro dropWhile_append2) simp
  with ws have 3: "dropWhile (\<lambda>c. \<not> iswspace c) (path @ tab # ds) = tab # ds" by simp
  from 1 2 3 assms(1) show ?thesis by (simp add: extract_wstring_def)
qed

lemma extract_DWORD_digits:
  assumes "dropWhile iswspace s = ds" and "ds \<noteq> []"
      and "hd ds \<noteq> CHR ''-''" and "hd ds \<noteq> CHR ''+''"
      and "\<forall>c \<in> set ds. iswdigit c"
      and "foldl (\<lambda>a c. 10 * a + digit_value c) 0 ds = n" and "n < 2 ^ 32"
  shows "extract_DWORD s = Some (word_of_nat n)"
proof -
  from assms(5) have tw: "takeWhile iswdigit ds = ds" by (simp add: takeWhile_eq_all_conv)
  show ?thesis
    unfolding extract_DWORD_def Let_def assms(1)
    using assms(2,3,4,6,7) by (simp add: tw)
qed

lemma extract_DWORD_record:
  assumes "n < 2 ^ 32"
  shows "extract_DWORD (tab # dec_digits n) = Some (word_of_nat n)"
proof -
  note p = dec_digits_props [of n]
  obtain c cs where ds: "dec_digits n = c # cs" using p by (cases "dec_digits n") auto
  with p obtain d where d: "d < 10" "c = digit_char d" by auto
  have ws: "iswspace tab" by (simp add: iswspace_def tab_def)
  from d ds ws have 1: "dropWhile iswspace (tab # dec_digits n) = dec_digits n"
    by (simp add: digit_char_props)
  from d ds have 2: "hd (dec_digits n) \<noteq> CHR ''-''" "hd (dec_digits n) \<noteq> CHR ''+''"
    by (simp_all add: digit_char_props)
  from p have 3: "\<forall>c \<in> set (dec_digits n). iswdigit c" by (auto simp: digit_char_props)
  from p have 4: "foldl (\<lambda>a c. 10 * a + digit_value c) 0 (dec_digits n) = n" by simp
  from p have 5: "dec_digits n \<noteq> []" by simp
  from 1 5 2 3 4 assms show ?thesis by (rule extract_DWORD_digits)
qed

lemma getlines_record:
  assumes "newline \<notin> set l"
  shows "getlines (l @ newline # rest) = l # getlines rest"
proof -
  from assms have "takeWhile (\<lambda>c. c \<noteq> newline) (l @ newline # rest) =
      l @ takeWhile (\<lambda>c. c \<noteq> newline) (newline # rest)"
    by (intro takeWhile_append2) auto
  then have "takeWhile (\<lambda>c. c \<noteq> newline) (l @ newline # rest) = l" by simp
  then show ?thesis
    by (subst getlines.simps) (simp add: Let_def)
qed

lemma record_no_newline:
  assumes "\<forall>c \<in> set path. \<not> iswspace c"
  shows "newline \<notin> set (path @ tab # dec_digits n)"
proof -
  have "iswspace newline" by (simp add: iswspace_def newline_def)
  with assms have "newline \<notin> set path" by blast
  moreover have "newline \<noteq> tab" by (simp add: newline_def tab_def)
  moreover have "newline \<notin> set (dec_digits n)"
  proof
    assume "newline \<in> set (dec_digits n)"
    with dec_digits_props [of n] obtain d where "d < 10" "newline = digit_char d" by blast
    with digit_char_props(6) [of d] show False by simp
  qed
  ultimately show ?thesis by simp
qed

lemma getlines_Save:
  assumes "\<forall>entry \<in> set m. \<forall>c \<in> set (fst entry). \<not> iswspace c"
  shows "getlines (concat (map (\<lambda>pair. fst pair @ [tab] @ dec_digits (unat (processId (snd pair)))
                                       @ [newline]) m)) =
         map (\<lambda>pair. fst pair @ tab # dec_digits (unat (processId (snd pair)))) m"
  using assms
proof (induction m)
  case Nil
  show ?case by (simp add: getlines_Nil)
next
  case (Cons e m)
  from Cons.prems have "newline \<notin> set (fst e @ tab # dec_digits (unat (processId (snd e))))"
    by (intro record_no_newline) simp
  from getlines_record [OF this] Cons show ?case by simp
qed

lemma LoadTrackingMapping_line_record:
  assumes "path \<noteq> []" and "\<forall>c \<in> set path. \<not> iswspace c"
      and "GetMainWindowHandle env pid = Some h"
  shows "LoadTrackingMapping_line env (path @ tab # dec_digits (unat pid)) m =
           map_assign path (GetFingerprint env h) m"
proof -
  have "unat pid < 2 ^ 32" using unsigned_less [of pid, where 'a = nat] by simp
  then have "extract_DWORD (tab # dec_digits (unat pid)) = Some pid"
    by (simp add: extract_DWORD_record)
  with extract_wstring_record [OF assms(1,2)] assms(3) show ?thesis
    by (simp add: LoadTrackingMapping_line_def)
qed

lemma foldl_records_keys:
  assumes "\<forall>entry \<in> set es. fst entry \<noteq> [] \<and> (\<forall>c \<in> set (fst entry). \<not> iswspace c) \<and>
             GetMainWindowHandle env (processId (snd entry)) \<noteq> None"
  shows "fst ` set (foldl (\<lambda>m line. LoadTrackingMapping_line env line m) m
                      (map (\<lambda>pair. fst pair @ tab # dec_digits (unat (processId (snd pair)))) es))
         = fst ` set m \<union> fst ` set es"
  using assms
proof (induction es arbitrary: m)
  case Nil
  show ?case by simp
next
  case (Cons e es)
  from Cons.prems obtain h where h: "GetMainWindowHandle env (processId (snd e)) = Some h"
    by auto
  from Cons.prems have "fst e \<noteq> []" "\<forall>c \<in> set (fst e). \<not> iswspace c" by auto
  from LoadTrackingMapping_line_record [OF this h]
  have step: "LoadTrackingMapping_line env (fst e @ tab # dec_digits (unat (processId (snd e)))) m =
      map_assign (fst e) (GetFingerprint env h) m" .
  from Cons.prems have "\<forall>entry \<in> set es. fst entry \<noteq> [] \<and>
      (\<forall>c \<in> set (fst entry). \<not> iswspace c) \<and>
      GetMainWindowHandle env (processId (snd entry)) \<noteq> None"
    by simp
  from Cons.IH [OF this, of "map_assign (fst e) (GetFingerprint env h) m"] step
  show ?case by (simp add: keys_map_assign)
qed

text \<open>
  Saving and loading do give back the same keys when no path is empty or contains white
  space and every recorded process still owns a visible window.
\<close>

lemma roundtrip_keys_without_whitespace:
  assumes "\<forall>entry \<in> set m. fst entry \<noteq> [] \<and> (\<forall>c \<in> set (fst entry). \<not> iswspace c) \<and>
             GetMainWindowHandle env (processId (snd entry)) \<noteq> None"
  shows "fst ` set (LoadTrackingMapping env (SaveTrackingMapping True m) []) = fst ` set m"
proof -
  from assms have "\<forall>entry \<in> set m. \<forall>c \<in> set (fst entry). \<not> iswspace c" by blast
  from getlines_Save [OF this] foldl_records_keys [OF assms, of "[]"] show ?thesis
    by (simp add: LoadTrackingMapping_def SaveTrackingMapping_def LoadTrackingMapping_loop_foldl)
qed

lemma url_branch_report: "url_branch desktop owner report_path = None"
  by (simp add: url_branch_def report_path_def PROJECT_FOLDER_def backslash_def towlower_Char)

lemma append_suffix_drop: "s = b @ e \<Longrightarrow> drop (length s - length e) s = e"
  by simp

lemma take_drop_suffix:
  assumes "length e \<le> length s" and "take (length e) (drop (length s - length e) s) = e"
  shows "\<exists>b. s = b @ e"
proof -
  from assms(1) have "length (drop (length s - length e) s) = length e" by simp
  then have "take (length e) (drop (length s - length e) s) = drop (length s - length e) s"
    by simp
  with assms(2) have "drop (length s - length e) s = e" by simp
  then have "s = take (length s - length e) s @ e" by (metis append_take_drop_id)
  then show ?thesis by blast
qed

lemma StripLnkExtension_unchanged:
  assumes "\<forall>b. s \<noteq> b @ ''.lnk''"
  shows "StripLnkExtension s = s"
proof (cases "length ''.lnk'' \<le> length s")
  case True
  with take_drop_suffix [of "''.lnk''" s] assms
  have "take (length ''.lnk'') (drop (length s - length ''.lnk'') s) \<noteq> ''.lnk''" by blast
  with True show ?thesis
    unfolding StripLnkExtension_def Let_def by (simp only: if_True if_False)
next
  case False
  then show ?thesis
    unfolding StripLnkExtension_def Let_def by (simp only: if_False)
qed

lemma NormalLogic_dead:
  assumes "map_of m filePath = Some stored" and "\<not> IsWindow (w 0) (hwnd stored)"
  shows "NormalLogic w owner m filePath name =
           (case GetWindowHandleByFileName (w 0) name of
              Some found \<Rightarrow>
                (map_assign filePath (GetFingerprint (w 0) found) m,
                 [IsWindow_call (hwnd stored), GetWindowHandleByFileName_call name,
                  GetFingerprint_call found, ActivateTrackedWindow_call found])
            | None \<Rightarrow>
                (fst (LaunchFile w filePath owner m),
                 IsWindow_call (hwnd stored) # GetWindowHandleByFileName_call name #
                 snd (LaunchFile w filePath owner m)))"
  using assms
  by (simp add: NormalLogic_def NormalLogic_else_def GetFingerprint_def
      split: option.splits prod.splits)

lemma NormalLogic_dead_calls:
  assumes "map_of m filePath = Some stored" and "\<not> IsWindow (w 0) (hwnd stored)"
  shows "CompareStableAttributes_call a b \<notin> set (snd (NormalLogic w owner m filePath name))"
    and "\<forall>t. hwnd stored \<notin> set (TopLevelWindows (w t)) \<Longrightarrow>
         GetFingerprint_call (hwnd stored) \<notin> set (snd (NormalLogic w owner m filePath name))"
proof -
  show "CompareStableAttributes_call a b \<notin> set (snd (NormalLogic w owner m filePath name))"
  proof (cases "GetWindowHandleByFileName (w 0) name")
    case (Some found)
    then show ?thesis by (simp add: NormalLogic_dead [where w = w, OF assms])
  next
    case None
    then show ?thesis
      using LaunchFile_calls [of "CompareStableAttributes_call a b" w filePath owner m]
      by (auto simp add: NormalLogic_dead [where w = w, OF assms])
  qed
next
  assume gone: "\<forall>t. hwnd stored \<notin> set (TopLevelWindows (w t))"
  show "GetFingerprint_call (hwnd stored) \<notin> set (snd (NormalLogic w owner m filePath name))"
  proof (cases "GetWindowHandleByFileName (w 0) name")
    case (Some found)
    then have "found \<in> set (TopLevelWindows (w 0))"
      by (rule GetWindowHandleByFileName_enumerated)
    with gone have "found \<noteq> hwnd stored" by blast
    with Some show ?thesis by (auto simp add: NormalLogic_dead [where w = w, OF assms])
  next
    case None
    then show ?thesis
      using LaunchFile_calls [of "GetFingerprint_call (hwnd stored)" w filePath owner m] gone
      by (auto simp add: NormalLogic_dead [where w = w, OF assms])
  qed
qed

lemma url_branch_calls:
  assumes "url_branch env owner filePath = Some calls"
  shows "CompareStableAttributes_call a b \<notin> set calls" and "GetFingerprint_call h \<notin> set calls"
  using assms
  by (auto simp: url_branch_def Let_def split: if_splits option.splits)

text \<open>The \<open>.url\<close> branch on a shortcut file that cannot be opened and on one that
  names a URL; a handler that returns in this branch makes these calls only and returns the
  map it was given.\<close>

lemma url_branch_examples:
  "url_branch desktop 1 link_path =
     Some [MessageBox_call 1 ''Failed to open .url file.'' ''Error'']"
  "url_branch url_desktop 1 link_path =
     Some [ShowIntegratedBrowser_call ''https://example.org/'']"
  by (simp_all add: url_branch_def url_desktop_def desktop_def link_path_def PROJECT_FOLDER_def
      backslash_def newline_def towlower_Char getlines.simps)

lemma handlers_in_url_branch:
  assumes "url_branch (w 0) owner (PROJECT_FOLDER @ [backslash] @ name) = Some calls"
      and "name \<noteq> []"
  shows "CLIEditSubclassProc w owner m name = (m, calls)"
    and "NM_DBLCLK w owner m name = (m, calls)"
    and "WM_COMMAND_launcher w owner m (PROJECT_FOLDER @ [backslash] @ name) = (m, calls)"
  using assms
  by (simp_all add: CLIEditSubclassProc_def NM_DBLCLK_def WM_COMMAND_launcher_def)

section \<open>The claims\<close>

subsection \<open>C1\<close>

text \<open>
  Claim C1, amended. For a tracked entry whose stored handle is still a live window, when
  re-validation captures a fresh fingerprint whose process id and class name both equal
  the stored ones, the stored record is left exactly as it was, whatever the fresh title
  is: the timer row and the double click both return the map unchanged, so the stored
  title, handle and process id keep their values. The timer reports the stored handle; the
  double click, for a non-empty row name whose \<open>.url\<close> branch does not return first,
  makes the calls \<open>IsWindow\<close>, \<open>GetFingerprint\<close>, \<open>CompareStableAttributes\<close> and
  activates the stored handle. So the record is replaced by the fresh fingerprint only when
  the process id or the class name differs.
\<close>

theorem revalidation_keeps_record:
  assumes "map_of m (PROJECT_FOLDER @ [backslash] @ name) = Some stored"
      and "IsWindow env (hwnd stored)"
      and "processId (GetFingerprint env (hwnd stored)) = processId stored"
      and "className (GetFingerprint env (hwnd stored)) = className stored"
      and "w 0 = env"
  shows "WM_TIMER_row env m name =
           (m, Some (hwnd stored),
            [IsWindow_call (hwnd stored), GetFingerprint_call (hwnd stored),
             CompareStableAttributes_call stored (GetFingerprint env (hwnd stored))]) \<and>
         fst (NM_DBLCLK w owner m name) = m \<and>
         (name \<noteq> [] \<and> url_branch env owner (PROJECT_FOLDER @ [backslash] @ name) = None \<longrightarrow>
          NM_DBLCLK w owner m name =
            (m, [IsWindow_call (hwnd stored), GetFingerprint_call (hwnd stored),
                 CompareStableAttributes_call stored (GetFingerprint env (hwnd stored)),
                 ActivateTrackedWindow_call (hwnd stored)]))"
  using assms
  by (simp add: WM_TIMER_row_def NM_DBLCLK_def NormalLogic_def CompareStableAttributes_def
      Let_def split: option.splits)

theorem revalidation_keeps_record_witness:
  "url_branch desktop 1 (PROJECT_FOLDER @ [backslash] @ ''report.docx'') = None \<and>
   WM_TIMER_row desktop stale_map ''report.docx'' =
     (stale_map, Some 5,
      [IsWindow_call 5, GetFingerprint_call 5,
       CompareStableAttributes_call fp_stale (GetFingerprint desktop 5)]) \<and>
   NM_DBLCLK still_world 1 stale_map ''report.docx'' =
     (stale_map,
      [IsWindow_call 5, GetFingerprint_call 5,
       CompareStableAttributes_call fp_stale (GetFingerprint desktop 5),
       ActivateTrackedWindow_call 5])"
proof -
  have u: "url_branch desktop 1 (PROJECT_FOLDER @ [backslash] @ ''report.docx'') = None"
    using url_branch_report [of 1] by (simp only: report_path_def)
  have n: "''report.docx'' \<noteq> []" by simp
  have "WM_TIMER_row desktop stale_map ''report.docx'' =
           (stale_map, Some (hwnd fp_stale),
            [IsWindow_call (hwnd fp_stale), GetFingerprint_call (hwnd fp_stale),
             CompareStableAttributes_call fp_stale (GetFingerprint desktop (hwnd fp_stale))]) \<and>
        fst (NM_DBLCLK still_world 1 stale_map ''report.docx'') = stale_map \<and>
        (''report.docx'' \<noteq> [] \<and>
         url_branch desktop 1 (PROJECT_FOLDER @ [backslash] @ ''report.docx'') = None \<longrightarrow>
         NM_DBLCLK still_world 1 stale_map ''report.docx'' =
           (stale_map, [IsWindow_call (hwnd fp_stale), GetFingerprint_call (hwnd fp_stale),
                CompareStableAttributes_call fp_stale (GetFingerprint desktop (hwnd fp_stale)),
                ActivateTrackedWindow_call (hwnd fp_stale)]))"
    by (rule revalidation_keeps_record)
      (rule stale_facts, rule stale_facts, rule stale_facts, rule stale_facts,
        simp add: still_world_def)
  with u n have "WM_TIMER_row desktop stale_map ''report.docx'' =
           (stale_map, Some (hwnd fp_stale),
            [IsWindow_call (hwnd fp_stale), GetFingerprint_call (hwnd fp_stale),
             CompareStableAttributes_call fp_stale (GetFingerprint desktop (hwnd fp_stale))])"
    and "NM_DBLCLK still_world 1 stale_map ''report.docx'' =
           (stale_map, [IsWindow_call (hwnd fp_stale), GetFingerprint_call (hwnd fp_stale),
                CompareStableAttributes_call fp_stale (GetFingerprint desktop (hwnd fp_stale)),
                ActivateTrackedWindow_call (hwnd fp_stale)])"
    by blast+
  with u show ?thesis by (simp only: stale_facts(7))
qed

text \<open>
  Claim C1 as stated fails: the window of the tracked entry is live, its process id and
  class name are the stored ones and its title has changed, yet after the timer's
  re-validation and after a double click the stored title is still the old one.
\<close>

theorem revalidation_title_counterexample:
  "map_of stale_map report_path = Some fp_stale \<and>
   IsWindow desktop (hwnd fp_stale) \<and>
   processId (GetFingerprint desktop (hwnd fp_stale)) = processId fp_stale \<and>
   className (GetFingerprint desktop (hwnd fp_stale)) = className fp_stale \<and>
   windowTitle (GetFingerprint desktop (hwnd fp_stale)) = ''REPORT.docx - Word'' \<and>
   windowTitle fp_stale = ''Document1 - Word'' \<and>
   map_option windowTitle
     (map_of (fst (WM_TIMER_row desktop stale_map ''report.docx'')) report_path)
     = Some ''Document1 - Word'' \<and>
   map_option windowTitle
     (map_of (fst (NM_DBLCLK still_world 1 stale_map ''report.docx'')) report_path)
     = Some ''Document1 - Word''"
  by (simp add: stale_map_def report_path_def fp_stale_def fp_word_def desktop_def
      GetFingerprint_def still_world_def WM_TIMER_row_def NM_DBLCLK_def NormalLogic_def
      CompareStableAttributes_def url_branch_def PROJECT_FOLDER_def backslash_def
      towlower_Char)

subsection \<open>C2\<close>

text \<open>
  Claim C2, amended. After a successful launch, \<open>LaunchFile\<close> looks for the main
  visible window of the launched process 0, 250, 500 and 750 ms after the launch. A window
  that first becomes available at or before 750 ms, and stays, is captured at the first of
  these instants not earlier than its arrival and its fingerprint is recorded under the
  path; a window that first appears later than 750 ms, at 999 ms as well as at 1001 ms, is
  not recorded and the map is returned unchanged.
\<close>

theorem LaunchFile_poll_instants:
  assumes shell: "ShellExecuteExW (w 0) filePath = Some pid"
      and arr: "\<forall>t. GetMainWindowHandle (w t) pid = (if arrival \<le> t then Some h else None)"
  shows "fst (LaunchFile w filePath owner m) =
           (if arrival \<le> 750
            then map_assign filePath
                   (GetFingerprint (w (250 * ((arrival + 249) div 250))) h) m
            else m)"
proof -
  consider "arrival = 0" | "0 < arrival" "arrival \<le> 250" | "250 < arrival" "arrival \<le> 500"
    | "500 < arrival" "arrival \<le> 750" | "750 < arrival"
    by linarith
  then show ?thesis
  proof cases
    case 1
    then show ?thesis
      using shell arr by (simp add: LaunchFile_def LaunchFile_poll_unrolled)
  next
    case 2
    then have "(arrival + 249) div 250 = 1" by simp
    then show ?thesis
      using 2 shell arr by (simp add: LaunchFile_def LaunchFile_poll_unrolled)
  next
    case 3
    then have "(arrival + 249) div 250 = 2" by simp
    then show ?thesis
      using 3 shell arr by (simp add: LaunchFile_def LaunchFile_poll_unrolled)
  next
    case 4
    then have "(arrival + 249) div 250 = 3" by simp
    then show ?thesis
      using 4 shell arr by (simp add: LaunchFile_def LaunchFile_poll_unrolled)
  next
    case 5
    then show ?thesis
      using shell arr by (simp add: LaunchFile_def LaunchFile_poll_unrolled)
  qed
qed

theorem LaunchFile_poll_instants_witness:
  "fst (LaunchFile (arrival_world 750) report_path 1 []) = [(report_path, GetFingerprint desktop 5)] \<and>
   fst (LaunchFile (arrival_world 999) report_path 1 []) = [] \<and>
   fst (LaunchFile (arrival_world 1001) report_path 1 []) = []"
proof -
  have a: "\<forall>t. GetMainWindowHandle (arrival_world T t) 1234 = (if T \<le> t then Some 5 else None)" for T
    by (simp add: arrival_world_main)
  note t = LaunchFile_poll_instants [OF arrival_world_shell a, of _ report_path 1 "[]"]
  have "arrival_world 750 750 = desktop" by (simp add: arrival_world_def)
  with t [of 750] t [of 999] t [of 1001] show ?thesis by simp
qed

text \<open>
  Claim C2 as stated fails: a window that is absent at 998 ms and present from 999 ms on
  is not recorded, since the last look-up happens at 750 ms.
\<close>

theorem LaunchFile_999_counterexample:
  "ShellExecuteExW (arrival_world 999 0) report_path = Some 1234 \<and>
   GetMainWindowHandle (arrival_world 999 998) 1234 = None \<and>
   GetMainWindowHandle (arrival_world 999 999) 1234 = Some 5 \<and>
   GetMainWindowHandle (arrival_world 999 1000) 1234 = Some 5 \<and>
   map_of (fst (LaunchFile (arrival_world 999) report_path 1 [])) report_path = None"
  by (simp add: arrival_world_main arrival_world_shell LaunchFile_def LaunchFile_poll_unrolled)

subsection \<open>C3\<close>

text \<open>
  Claim C3 fails on a path that contains a space. The map tracks one file,
  \<open>my report.docx\<close> in the project folder, whose process 1234 still owns the visible
  window 5. \<open>SaveTrackingMapping\<close> writes the path, a tab and the process id;
  \<open>LoadTrackingMapping\<close> reads the path only up to the space, fails to read a number
  from what follows, skips the line and returns the empty map.
\<close>

theorem roundtrip_loses_spaced_path:
  "SaveTrackingMapping True spaced_map = Some (spaced_path @ [tab] @ ''1234'' @ [newline]) \<and>
   GetMainWindowHandle desktop (processId fp_word) = Some 5 \<and>
   fst ` set spaced_map = {spaced_path} \<and>
   LoadTrackingMapping desktop (SaveTrackingMapping True spaced_map) [] = [] \<and>
   fst ` set (LoadTrackingMapping desktop (SaveTrackingMapping True spaced_map) []) \<noteq>
     fst ` set spaced_map"
proof -
  have "getlines (spaced_path @ [tab] @ ''1234'' @ [newline]) = [spaced_path @ [tab] @ ''1234'']"
    by (simp add: spaced_path_def backslash_def tab_def newline_def PROJECT_FOLDER_def getlines.simps)
  moreover have "extract_wstring (spaced_path @ [tab] @ ''1234'') =
      Some (PROJECT_FOLDER @ [backslash] @ ''my'', '' report.docx'' @ [tab] @ ''1234'')"
    by (simp add: extract_wstring_def spaced_path_def backslash_def tab_def newline_def PROJECT_FOLDER_def iswspace_def)
  moreover have "extract_DWORD ('' report.docx'' @ [tab] @ ''1234'') = None"
    by (simp add: extract_DWORD_def backslash_def tab_def newline_def PROJECT_FOLDER_def iswspace_def iswdigit_def less_eq_char_def)
  ultimately have "LoadTrackingMapping desktop (Some (spaced_path @ [tab] @ ''1234'' @ [newline])) [] = []"
    by (simp add: LoadTrackingMapping_def LoadTrackingMapping_loop_foldl
        LoadTrackingMapping_line_def)
  moreover have "GetMainWindowHandle desktop (processId fp_word) = Some 5"
    by (simp add: fp_word_def GetMainWindowHandle_desktop)
  ultimately show ?thesis
    by (simp add: Save_spaced) (simp add: spaced_map_def)
qed

subsection \<open>C4\<close>

text \<open>
  Claim C4. \<open>CompareFingerprints\<close> answers true exactly when the two fingerprints have
  the same process id, the same class name, the same four rectangle edges, and titles that
  are equal once both are lower-cased.
\<close>

theorem CompareFingerprints_iff:
  "CompareFingerprints stored current \<longleftrightarrow>
     processId stored = processId current \<and>
     className stored = className current \<and>
     rc_left (rect stored) = rc_left (rect current) \<and>
     rc_top (rect stored) = rc_top (rect current) \<and>
     rc_right (rect stored) = rc_right (rect current) \<and>
     rc_bottom (rect stored) = rc_bottom (rect current) \<and>
     map towlower (windowTitle stored) = map towlower (windowTitle current)"
  by (auto simp add: CompareFingerprints_def Let_def)

theorem CompareFingerprints_iff_witness:
  "CompareFingerprints fp_word (GetFingerprint desktop 5) \<and>
   windowTitle fp_word \<noteq> windowTitle (GetFingerprint desktop 5) \<and>
   \<not> CompareFingerprints fp_word (fp_word\<lparr>rect := demo_rect\<lparr>rc_bottom := 601\<rparr>\<rparr>)"
  using CompareFingerprints_iff [of fp_word "GetFingerprint desktop 5"]
    CompareFingerprints_iff [of fp_word "fp_word\<lparr>rect := demo_rect\<lparr>rc_bottom := 601\<rparr>\<rparr>"]
  by (simp add: fp_word_def GetFingerprint_def desktop_def demo_rect_def towlower_Char)

subsection \<open>C5\<close>

text \<open>
  Claim C5. Whenever \<open>CompareFingerprints\<close> is true, \<open>CompareStableAttributes\<close> is
  true; the converse fails: some pair with equal process id and class name, differing in
  title or rectangle, passes \<open>CompareStableAttributes\<close> and fails
  \<open>CompareFingerprints\<close>.
\<close>

theorem CompareFingerprints_implies_stable:
  "(CompareFingerprints stored current \<longrightarrow> CompareStableAttributes stored current) \<and>
   (\<exists>s c. processId s = processId c \<and> className s = className c \<and>
          (windowTitle s \<noteq> windowTitle c \<or> rect s \<noteq> rect c) \<and>
          CompareStableAttributes s c \<and> \<not> CompareFingerprints s c)"
proof
  show "CompareFingerprints stored current \<longrightarrow> CompareStableAttributes stored current"
    by (simp add: CompareFingerprints_def CompareStableAttributes_def split: if_splits)
next
  let ?s = "fp_word" and ?c = "fp_word\<lparr>windowTitle := ''Budget.docx - Word''\<rparr>"
  have "processId ?s = processId ?c \<and> className ?s = className ?c \<and>
          (windowTitle ?s \<noteq> windowTitle ?c \<or> rect ?s \<noteq> rect ?c) \<and>
          CompareStableAttributes ?s ?c \<and> \<not> CompareFingerprints ?s ?c"
    by (simp add: fp_word_def CompareStableAttributes_def CompareFingerprints_def towlower_Char)
  then show "\<exists>s c. processId s = processId c \<and> className s = className c \<and>
          (windowTitle s \<noteq> windowTitle c \<or> rect s \<noteq> rect c) \<and>
          CompareStableAttributes s c \<and> \<not> CompareFingerprints s c"
    by blast
qed

theorem CompareFingerprints_implies_stable_witness:
  "CompareFingerprints fp_word (GetFingerprint desktop 5) \<and>
   CompareStableAttributes fp_word (GetFingerprint desktop 5)"
proof -
  have h: "CompareFingerprints fp_word (GetFingerprint desktop 5)"
    by (simp add: CompareFingerprints_def fp_word_def GetFingerprint_def desktop_def
        demo_rect_def towlower_Char)
  with CompareFingerprints_implies_stable [of fp_word "GetFingerprint desktop 5"]
  show ?thesis by blast
qed

subsection \<open>C6\<close>

text \<open>
  Claim C6. \<open>GetWindowHandleByFileName\<close> lower-cases the file name, strips a trailing
  \<open>.lnk\<close> from it, lower-cases each enumerated title, and returns the first enumerated
  window whose lower-cased title contains the stripped name. Stripping removes a final
  \<open>.lnk\<close> and leaves every name that does not end in \<open>.lnk\<close> as it is, so a
  \<open>.LNK\<close> suffix in any case is removed from the lower-cased name and any other
  lower-cased name is searched unchanged. An empty stripped name matches no window, and the
  answer does not depend on the case of the name or of the titles.
\<close>

theorem GetWindowHandleByFileName_first_match:
  "GetWindowHandleByFileName env name =
     List.find (\<lambda>h. StripLnkExtension (map towlower name) \<noteq> [] \<and>
                     (\<exists>ps ss. map towlower (GetWindowText env h) =
                                ps @ StripLnkExtension (map towlower name) @ ss))
       (TopLevelWindows env)
   \<and> StripLnkExtension (map towlower (base @ ''.LNK'')) = map towlower base
   \<and> StripLnkExtension (stem @ ''.lnk'') = stem
   \<and> ((\<forall>b. s \<noteq> b @ ''.lnk'') \<longrightarrow> StripLnkExtension s = s)
   \<and> (StripLnkExtension (map towlower name) = [] \<longrightarrow> GetWindowHandleByFileName env name = None)
   \<and> (map towlower name' = map towlower name \<and>
      TopLevelWindows env' = TopLevelWindows env \<and>
      (\<forall>h \<in> set (TopLevelWindows env).
          map towlower (GetWindowText env' h) = map towlower (GetWindowText env h))
      \<longrightarrow> GetWindowHandleByFileName env' name' = GetWindowHandleByFileName env name)"
proof (intro conjI impI)
  show "GetWindowHandleByFileName env name =
     List.find (\<lambda>h. StripLnkExtension (map towlower name) \<noteq> [] \<and>
                     (\<exists>ps ss. map towlower (GetWindowText env h) =
                                ps @ StripLnkExtension (map towlower name) @ ss))
       (TopLevelWindows env)"
    by (rule GetWindowHandleByFileName_find)
next
  have "map towlower (base @ ''.LNK'') = map towlower base @ ''.lnk''"
    by (simp add: towlower_Char)
  then show "StripLnkExtension (map towlower (base @ ''.LNK'')) = map towlower base"
    by (simp only: StripLnkExtension_append)
next
  show "StripLnkExtension (stem @ ''.lnk'') = stem"
    by (rule StripLnkExtension_append)
next
  assume "\<forall>b. s \<noteq> b @ ''.lnk''"
  then show "StripLnkExtension s = s"
    by (rule StripLnkExtension_unchanged)
next
  assume "StripLnkExtension (map towlower name) = []"
  then show "GetWindowHandleByFileName env name = None"
    by (simp add: GetWindowHandleByFileName_find find_None_iff)
next
  assume a: "map towlower name' = map towlower name \<and>
      TopLevelWindows env' = TopLevelWindows env \<and>
      (\<forall>h \<in> set (TopLevelWindows env).
          map towlower (GetWindowText env' h) = map towlower (GetWindowText env h))"
  show "GetWindowHandleByFileName env' name' = GetWindowHandleByFileName env name"
    unfolding GetWindowHandleByFileName_find
  proof (rule find_cong)
    show "TopLevelWindows env' = TopLevelWindows env" using a by simp
  next
    fix h assume "h \<in> set (TopLevelWindows env)"
    with a have "map towlower (GetWindowText env' h) = map towlower (GetWindowText env h)"
      by blast
    with a show "(StripLnkExtension (map towlower name') \<noteq> [] \<and>
                     (\<exists>ps ss. map towlower (GetWindowText env' h) =
                                ps @ StripLnkExtension (map towlower name') @ ss)) =
                 (StripLnkExtension (map towlower name) \<noteq> [] \<and>
                     (\<exists>ps ss. map towlower (GetWindowText env h) =
                                ps @ StripLnkExtension (map towlower name) @ ss))"
      by simp
  qed
qed

theorem GetWindowHandleByFileName_first_match_witness:
  "GetWindowHandleByFileName desktop ''Report.DOCX.lnk'' = Some 5 \<and>
   StripLnkExtension (map towlower ''.LNK'') = [] \<and>
   GetWindowHandleByFileName desktop ''.LNK'' = None \<and>
   GetWindowHandleByFileName desktop ''REPORT.docx'' = GetWindowHandleByFileName desktop ''report.DOCX'' \<and>
   StripLnkExtension (map towlower ''Untitled.txt'') = ''untitled.txt'' \<and>
   GetWindowHandleByFileName desktop ''Untitled.txt'' = None"
proof -
  have 1: "GetWindowHandleByFileName desktop ''Report.DOCX.lnk'' = Some 5"
    by (simp add: GetWindowHandleByFileName_def EnumProcFile_def desktop_def
        StripLnkExtension_def towlower_Char)
  have 2: "StripLnkExtension (map towlower ''.LNK'') = []"
    by (simp add: StripLnkExtension_def towlower_Char)
  have 3: "map towlower ''REPORT.docx'' = map towlower ''report.DOCX''"
    by (simp add: towlower_Char)
  have 4: "map towlower ''Untitled.txt'' = ''untitled.txt''"
    by (simp add: towlower_Char)
  have 5: "\<forall>b. ''untitled.txt'' \<noteq> b @ ''.lnk''"
  proof (intro allI notI)
    fix b assume "''untitled.txt'' = b @ ''.lnk''"
    from append_suffix_drop [OF this] show False by simp
  qed
  have 6: "GetWindowHandleByFileName desktop ''Untitled.txt'' = None"
    by (simp add: GetWindowHandleByFileName_def EnumProcFile_def desktop_def
        StripLnkExtension_def towlower_Char)
  note t = GetWindowHandleByFileName_first_match
  from t [where env = desktop and name = "''.LNK''"] 2
  have "GetWindowHandleByFileName desktop ''.LNK'' = None" by blast
  moreover from t [where env = desktop and name = "''report.DOCX''"
      and name' = "''REPORT.docx''" and env' = desktop] 3
  have "GetWindowHandleByFileName desktop ''REPORT.docx'' =
        GetWindowHandleByFileName desktop ''report.DOCX''" by blast
  moreover from t [where s = "''untitled.txt''"] 5
  have "StripLnkExtension ''untitled.txt'' = ''untitled.txt''" by blast
  ultimately show ?thesis using 1 2 6 by (simp only: 4)
qed

subsection \<open>C7\<close>

text \<open>
  Claim C7. When the stored handle of a tracked entry is no longer a window, the handler
  tests the handle with \<open>IsWindow\<close> and goes straight to the title search on the file
  name. The timer row makes no other call, leaves the map alone and reports what the
  search found. The CLI handler, for a non-empty input whose \<open>.url\<close> branch does not
  return first, makes the same two calls and then uses the search result: it captures and
  activates the window found, or launches the file when none is found. In no case does the
  CLI handler call \<open>CompareStableAttributes\<close>, and it captures no fingerprint of the
  dead handle as long as that handle is not enumerated while the handler runs.
\<close>

theorem dead_handle_falls_through:
  assumes tracked: "map_of m (PROJECT_FOLDER @ [backslash] @ name) = Some stored"
      and dead: "\<not> IsWindow (w 0) (hwnd stored)"
  shows "WM_TIMER_row (w 0) m name =
           (m, GetWindowHandleByFileName (w 0) name,
            [IsWindow_call (hwnd stored), GetWindowHandleByFileName_call name]) \<and>
         (name \<noteq> [] \<and> url_branch (w 0) owner (PROJECT_FOLDER @ [backslash] @ name) = None \<longrightarrow>
          CLIEditSubclassProc w owner m name =
            (case GetWindowHandleByFileName (w 0) name of
               Some found \<Rightarrow>
                 (map_assign (PROJECT_FOLDER @ [backslash] @ name) (GetFingerprint (w 0) found) m,
                  [IsWindow_call (hwnd stored), GetWindowHandleByFileName_call name,
                   GetFingerprint_call found, ActivateTrackedWindow_call found])
             | None \<Rightarrow>
                 (fst (LaunchFile w (PROJECT_FOLDER @ [backslash] @ name) owner m),
                  IsWindow_call (hwnd stored) # GetWindowHandleByFileName_call name #
                  snd (LaunchFile w (PROJECT_FOLDER @ [backslash] @ name) owner m)))) \<and>
         (\<forall>a b. CompareStableAttributes_call a b \<notin> set (snd (CLIEditSubclassProc w owner m name))) \<and>
         ((\<forall>t. hwnd stored \<notin> set (TopLevelWindows (w t))) \<longrightarrow>
          GetFingerprint_call (hwnd stored) \<notin> set (snd (CLIEditSubclassProc w owner m name)))"
proof (intro conjI impI allI)
  show "WM_TIMER_row (w 0) m name =
           (m, GetWindowHandleByFileName (w 0) name,
            [IsWindow_call (hwnd stored), GetWindowHandleByFileName_call name])"
    using tracked dead by (simp add: WM_TIMER_row_def)
next
  assume "name \<noteq> [] \<and> url_branch (w 0) owner (PROJECT_FOLDER @ [backslash] @ name) = None"
  then show "CLIEditSubclassProc w owner m name =
            (case GetWindowHandleByFileName (w 0) name of
               Some found \<Rightarrow>
                 (map_assign (PROJECT_FOLDER @ [backslash] @ name) (GetFingerprint (w 0) found) m,
                  [IsWindow_call (hwnd stored), GetWindowHandleByFileName_call name,
                   GetFingerprint_call found, ActivateTrackedWindow_call found])
             | None \<Rightarrow>
                 (fst (LaunchFile w (PROJECT_FOLDER @ [backslash] @ name) owner m),
                  IsWindow_call (hwnd stored) # GetWindowHandleByFileName_call name #
                  snd (LaunchFile w (PROJECT_FOLDER @ [backslash] @ name) owner m)))"
    using NormalLogic_dead [where w = w and owner = owner and name = name, OF tracked dead]
    by (simp add: CLIEditSubclassProc_def)
next
  fix a b
  show "CompareStableAttributes_call a b \<notin> set (snd (CLIEditSubclassProc w owner m name))"
  proof (cases "url_branch (w 0) owner (PROJECT_FOLDER @ [backslash] @ name)")
    case None
    with NormalLogic_dead_calls(1) [where w = w and a = a and b = b and owner = owner
        and name = name, OF tracked dead] show ?thesis
      by (simp add: CLIEditSubclassProc_def)
  next
    case (Some calls)
    with url_branch_calls(1) [OF Some, of a b] show ?thesis
      by (simp add: CLIEditSubclassProc_def)
  qed
next
  assume gone: "\<forall>t. hwnd stored \<notin> set (TopLevelWindows (w t))"
  show "GetFingerprint_call (hwnd stored) \<notin> set (snd (CLIEditSubclassProc w owner m name))"
  proof (cases "url_branch (w 0) owner (PROJECT_FOLDER @ [backslash] @ name)")
    case None
    with NormalLogic_dead_calls(2) [where w = w and owner = owner and name = name,
        OF tracked dead gone] show ?thesis
      by (simp add: CLIEditSubclassProc_def)
  next
    case (Some calls)
    with url_branch_calls(2) [OF Some, of "hwnd stored"] show ?thesis
      by (simp add: CLIEditSubclassProc_def)
  qed
qed

theorem dead_handle_falls_through_witness:
  "\<not> IsWindow (still_world 0) 7 \<and>
   url_branch (still_world 0) 1 (PROJECT_FOLDER @ [backslash] @ ''report.docx'') = None \<and>
   WM_TIMER_row (still_world 0) closed_map ''report.docx'' =
     (closed_map, Some 5, [IsWindow_call 7, GetWindowHandleByFileName_call ''report.docx'']) \<and>
   CLIEditSubclassProc still_world 1 closed_map ''report.docx'' =
     ([(report_path, GetFingerprint desktop 5)],
      [IsWindow_call 7, GetWindowHandleByFileName_call ''report.docx'',
       GetFingerprint_call 5, ActivateTrackedWindow_call 5]) \<and>
   GetFingerprint_call 7 \<notin> set (snd (CLIEditSubclassProc still_world 1 closed_map ''report.docx''))"
proof -
  note t = dead_handle_falls_through [where w = still_world and owner = 1,
      OF closed_facts(1) closed_facts(2)]
  have s0: "still_world 0 = desktop" by (simp add: still_world_def)
  have u: "url_branch (still_world 0) 1 (PROJECT_FOLDER @ [backslash] @ ''report.docx'') = None"
    using url_branch_report [of 1] by (simp only: report_path_def s0)
  have n: "''report.docx'' \<noteq> []" by simp
  have g: "GetWindowHandleByFileName (still_world 0) ''report.docx'' = Some 5"
    by (simp only: s0 GetWindowHandleByFileName_desktop)
  from t have "WM_TIMER_row (still_world 0) closed_map ''report.docx'' =
           (closed_map, GetWindowHandleByFileName (still_world 0) ''report.docx'',
            [IsWindow_call (hwnd closed_stored),
             GetWindowHandleByFileName_call ''report.docx''])"
    by (rule conjunct1)
  then have a: "WM_TIMER_row (still_world 0) closed_map ''report.docx'' =
     (closed_map, Some 5, [IsWindow_call 7, GetWindowHandleByFileName_call ''report.docx''])"
    by (simp only: g closed_facts(4))
  from t u n have "CLIEditSubclassProc still_world 1 closed_map ''report.docx'' =
      (case GetWindowHandleByFileName (still_world 0) ''report.docx'' of
         Some found \<Rightarrow>
           (map_assign (PROJECT_FOLDER @ [backslash] @ ''report.docx'')
              (GetFingerprint (still_world 0) found) closed_map,
            [IsWindow_call (hwnd closed_stored), GetWindowHandleByFileName_call ''report.docx'',
             GetFingerprint_call found, ActivateTrackedWindow_call found])
       | None \<Rightarrow>
           (fst (LaunchFile still_world (PROJECT_FOLDER @ [backslash] @ ''report.docx'') 1
                   closed_map),
            IsWindow_call (hwnd closed_stored) # GetWindowHandleByFileName_call ''report.docx'' #
            snd (LaunchFile still_world (PROJECT_FOLDER @ [backslash] @ ''report.docx'') 1
                   closed_map)))"
    by blast
  then have "CLIEditSubclassProc still_world 1 closed_map ''report.docx'' =
     (map_assign (PROJECT_FOLDER @ [backslash] @ ''report.docx'')
        (GetFingerprint (still_world 0) 5) closed_map,
      [IsWindow_call (hwnd closed_stored), GetWindowHandleByFileName_call ''report.docx'',
       GetFingerprint_call 5, ActivateTrackedWindow_call 5])"
    by (simp only: g option.case)
  then have b: "CLIEditSubclassProc still_world 1 closed_map ''report.docx'' =
     ([(report_path, GetFingerprint desktop 5)],
      [IsWindow_call 7, GetWindowHandleByFileName_call ''report.docx'',
       GetFingerprint_call 5, ActivateTrackedWindow_call 5])"
    by (simp add: closed_facts(4) s0 closed_map_def report_path_def)
  from t closed_facts(3)
  have "GetFingerprint_call (hwnd closed_stored) \<notin>
      set (snd (CLIEditSubclassProc still_world 1 closed_map ''report.docx''))"
    by blast
  then have c: "GetFingerprint_call 7 \<notin>
      set (snd (CLIEditSubclassProc still_world 1 closed_map ''report.docx''))"
    by (simp add: closed_facts(4))
  from closed_facts(2) have "\<not> IsWindow (still_world 0) 7" by (simp add: closed_facts(4))
  with u a b c show ?thesis by blast
qed

subsection \<open>C8\<close>

text \<open>
  Claim C8. When the shell-open call fails, \<open>LaunchFile\<close> shows the error message
  "Failed to launch file." and returns the tracking map exactly as it received it: it makes
  no other call, and no entry is added, removed or modified.
\<close>

theorem LaunchFile_failure_keeps_map:
  assumes "ShellExecuteExW (w 0) filePath = None"
  shows "LaunchFile w filePath owner m =
           (m, [ShellExecuteExW_call filePath,
                MessageBox_call owner ''Failed to launch file.'' ''Error''])"
  using assms by (simp add: LaunchFile_def)

theorem LaunchFile_failure_keeps_map_witness:
  "ShellExecuteExW (no_shell_world 0) report_path = None \<and>
   LaunchFile no_shell_world report_path 1 [(report_path, fp_word)] =
     ([(report_path, fp_word)],
      [ShellExecuteExW_call report_path,
       MessageBox_call 1 ''Failed to launch file.'' ''Error''])"
proof -
  have h: "ShellExecuteExW (no_shell_world 0) report_path = None"
    by (simp add: no_shell_world_def)
  from LaunchFile_failure_keeps_map [of no_shell_world report_path 1 "[(report_path, fp_word)]"] h
  show ?thesis by simp
qed

subsection \<open>C9\<close>

text \<open>
  Claim C9. Let \<open>path\<close> be absent from the map when loading starts (as it is in the
  empty map). If for every record of the tracking file that names \<open>path\<close> no visible
  window is owned by the recorded process and the title search on the base file name of
  \<open>path\<close> finds no window, then \<open>path\<close> is absent from the map that
  \<open>LoadTrackingMapping\<close> returns: the record is dropped and no entry is inserted for it.
\<close>

theorem LoadTrackingMapping_drops_unmatched:
  assumes "map_of m path = None"
      and "\<forall>line \<in> set (getlines ifs). \<forall>rest pid.
             extract_wstring line = Some (path, rest) \<and> extract_DWORD rest = Some pid \<longrightarrow>
               GetMainWindowHandle env pid = None \<and>
               (\<forall>pos. rfind_char path backslash = Some pos \<longrightarrow>
                   GetWindowHandleByFileName env (drop (pos + 1) path) = None)"
  shows "map_of (LoadTrackingMapping env (Some ifs) m) path = None"
  using assms
  by (simp add: LoadTrackingMapping_def LoadTrackingMapping_loop_foldl foldl_line_absent)

theorem LoadTrackingMapping_drops_unmatched_witness:
  "map_of (LoadTrackingMapping desktop (Some tracking_text) []) budget_path = None \<and>
   LoadTrackingMapping desktop (Some tracking_text) [] = [(report_path, GetFingerprint desktop 5)]"
proof -
  have 1: "map_of [] budget_path = None" by simp
  have 2: "\<forall>line \<in> set (getlines tracking_text). \<forall>rest pid.
             extract_wstring line = Some (budget_path, rest) \<and> extract_DWORD rest = Some pid \<longrightarrow>
               GetMainWindowHandle desktop pid = None \<and>
               (\<forall>pos. rfind_char budget_path backslash = Some pos \<longrightarrow>
                   GetWindowHandleByFileName desktop (drop (pos + 1) budget_path) = None)"
    by (auto simp add: getlines_tracking_text extract_budget_line search_budget)
  have 3: "LoadTrackingMapping desktop (Some tracking_text) [] =
             [(report_path, GetFingerprint desktop 5)]"
    by (simp add: LoadTrackingMapping_def LoadTrackingMapping_loop_foldl getlines_tracking_text
        LoadTrackingMapping_line_def extract_budget_line search_budget
        GetMainWindowHandle_desktop)
  from LoadTrackingMapping_drops_unmatched [OF 1 2] 3 show ?thesis by simp
qed

subsection \<open>C10\<close>

text \<open>
  Claim C10. \<open>GetFingerprint\<close> sets \<open>failCount\<close> to 0, and in every state of the
  tracking map that the program can reach from the empty map by loading, launching, timer
  re-validation and activation, every stored record is the result of a \<open>GetFingerprint\<close>
  call and has \<open>failCount\<close> 0: no operation stores any other value.
\<close>

theorem failCount_always_zero:
  "failCount (GetFingerprint env h) = 0 \<and>
   (reachable m \<longrightarrow>
      (\<forall>entry \<in> set m. failCount (snd entry) = 0 \<and>
                          (\<exists>env' h'. snd entry = GetFingerprint env' h')))"
proof (intro conjI impI)
  show "failCount (GetFingerprint env h) = 0" by (simp add: GetFingerprint_def)
next
  assume r: "reachable m"
  have "failCount (GetFingerprint env h) = 0 \<and>
        (\<exists>env' h'. GetFingerprint env h = GetFingerprint env' h')" for env h
    by (auto simp: GetFingerprint_def)
  from reachable_pres [of "\<lambda>tw. failCount tw = 0 \<and> (\<exists>env' h'. tw = GetFingerprint env' h')",
      OF this r]
  show "\<forall>entry \<in> set m. failCount (snd entry) = 0 \<and>
                          (\<exists>env' h'. snd entry = GetFingerprint env' h')" .
qed

theorem failCount_always_zero_witness:
  "reachable (fst (LaunchFile (arrival_world 0) report_path 1 [])) \<and>
   (report_path, GetFingerprint desktop 5) \<in> set (fst (LaunchFile (arrival_world 0) report_path 1 [])) \<and>
   failCount (GetFingerprint desktop 5) = 0"
proof -
  let ?m = "fst (LaunchFile (arrival_world 0) report_path 1 [])"
  have r: "reachable ?m" by (intro reachable.launch reachable.start)
  have "?m = [(report_path, GetFingerprint (arrival_world 0 0) 5)]"
    by (simp add: LaunchFile_def LaunchFile_poll_unrolled arrival_world_main arrival_world_shell)
  moreover have "arrival_world 0 0 = desktop" by (simp add: arrival_world_def)
  ultimately have mem: "(report_path, GetFingerprint desktop 5) \<in> set ?m"
    by simp
  from failCount_always_zero [of desktop 5 ?m] r mem
  have "failCount (snd (report_path, GetFingerprint desktop 5)) = 0" by blast
  with r mem show ?thesis by simp
qed

end
